theory Spec2Isabelle
  imports Complex_Main "HOL-Library.Multiset"
begin

section \<open>Errors\<close>

text \<open>
  Every exception the builders of \<^verbatim>\<open>kernel_builder.py\<close> can raise is a value.
  The string is the message the source formats.
\<close>

datatype error =
    NotImplementedError string
  | ValueError string
  | AssertionError string
  | KeyError
  | IndexError
  | UnboundLocalError string
  | CompilerError string

definition bind :: "error + 'a \<Rightarrow> ('a \<Rightarrow> error + 'b) \<Rightarrow> error + 'b" where
  "bind r f = (case r of Inl e \<Rightarrow> Inl e | Inr x \<Rightarrow> f x)"

section \<open>The Slate expression graph\<close>

text \<open>
  A UFL element: its family and, for a plain element, the number of element-local degrees
  of freedom; \<open>MixedElement\<close> holds its sub-elements.
\<close>

datatype ufl_element =
    FiniteElement string nat
  | MixedElement "ufl_element list"

text \<open>
  Modelled from the spec: \<^verbatim>\<open>create_element(e).space_dimension()\<close> of tsfc, which is
  not part of the sources; the element-local degree-of-freedom count, the sum of the
  sub-blocks for a composite element.
\<close>

fun dimension :: "ufl_element \<Rightarrow> nat" where
  "dimension (FiniteElement fam n) = n"
| "dimension (MixedElement es) = sum_list (map dimension es)"

text \<open>A coefficient function: its identity (UFL's count), its element and \<^verbatim>\<open>dat.cdim\<close>.\<close>

datatype coefficient = Function (fcount: nat) (ufl_element: ufl_element) (cdim: nat)

datatype mesh = Mesh (variable_layers: bool) (coordinates: coefficient)
  (cell_orientations: coefficient) (cell_sizes: coefficient) (num_facets: nat)

datatype slate_class =
    Tensor nat
  | AssembledVector coefficient
  | Block
  | Transpose
  | Negative
  | Factorization string
  | Inverse
  | Add
  | Mul
  | Solve

text \<open>
  A node of the expression graph. \<open>Tensor k\<close> is the terminal wrapping form number \<open>k\<close>.
  The attributes the builders read from a node are fields: \<^verbatim>\<open>shape\<close>, \<^verbatim>\<open>is_mixed\<close>,
  \<^verbatim>\<open>ufl_domain()\<close>, \<^verbatim>\<open>coefficients()\<close> and \<^verbatim>\<open>operands\<close>. Two nodes are the same
  dictionary key exactly when they are equal.
\<close>

datatype tensor = TensorBase (cls: slate_class) (shape: "nat list") (is_mixed: bool)
  (ufl_domain: mesh) (coefficients: "coefficient list") (operands: "tensor list")

fun subtensors :: "tensor \<Rightarrow> tensor list" where
  "subtensors (TensorBase c s m d cs ops) =
     TensorBase c s m d cs ops # concat (map subtensors ops)"

fun first_seen :: "'a list \<Rightarrow> 'a list \<Rightarrow> 'a list" where
  "first_seen seen [] = []"
| "first_seen seen (x # xs) =
     (if x \<in> set seen then first_seen seen xs else x # first_seen (x # seen) xs)"

text \<open>
  Modelled from the spec: \<^verbatim>\<open>traverse_dags\<close> of \<^verbatim>\<open>firedrake.slate.slac.utils\<close>, which is
  not part of the sources; it traverses all reachable nodes exactly once in a stable
  order. Here: pre-order, a shared node at its first encounter.
\<close>

definition traverse_dags :: "tensor list \<Rightarrow> tensor list" where
  "traverse_dags exprs = first_seen [] (concat (map subtensors exprs))"

inductive_set reachable :: "tensor \<Rightarrow> tensor set" for root :: tensor where
  root: "root \<in> reachable root"
| operand: "t \<in> reachable root \<Longrightarrow> c \<in> set (operands t) \<Longrightarrow> c \<in> reachable root"

section \<open>Symbols and ordered dictionaries\<close>

text \<open>The nodes of the generated code: COFFEE symbols, GEM and pymbolic terms.\<close>

datatype arg_name = Name string | FunctionName coefficient

datatype symbolic =
    Symbol string
  | FlatBlock string
  | Indexed string "nat list" "nat list"
  | GemVariable string "nat list"
  | EigenTensor symbolic "nat list"
  | Variable arg_name
  | Subscript symbolic "symbolic list"
  | SubArrayRef "symbolic list" symbolic
  | FunCall string "symbolic list"
  | Call symbolic "symbolic list"
  | CallInstruction "symbolic list" symbolic "symbolic list option" bool string

definition digit_char :: "nat \<Rightarrow> char" where
  "digit_char d = ''0123456789'' ! d"

text \<open>The format \<^verbatim>\<open>"%d" % n\<close> for a natural number.\<close>

function string_of_nat :: "nat \<Rightarrow> string" where
  "string_of_nat n =
     (if n < 10 then [digit_char n] else string_of_nat (n div 10) @ [digit_char (n mod 10)])"
  by pat_completeness auto
termination
  by (relation "measure (\<lambda>n. n)") auto

declare string_of_nat.simps [simp del]

text \<open>\<^verbatim>\<open>d.setdefault(k, v)\<close> on an \<^verbatim>\<open>OrderedDict\<close>: a new key goes last.\<close>

definition setdefault :: "('k \<times> 'v) list \<Rightarrow> 'k \<Rightarrow> 'v \<Rightarrow> ('k \<times> 'v) list" where
  "setdefault d k v = (if k \<in> fst ` set d then d else d @ [(k, v)])"

text \<open>\<^verbatim>\<open>d.setdefault(k, []).append(x)\<close>.\<close>

fun setdefault_append :: "('k \<times> 'v list) list \<Rightarrow> 'k \<Rightarrow> 'v \<Rightarrow> ('k \<times> 'v list) list" where
  "setdefault_append [] k x = [(k, [x])]"
| "setdefault_append ((k', xs) # d) k x =
     (if k' = k then (k', xs @ [x]) # d else (k', xs) # setdefault_append d k x)"

text \<open>\<^verbatim>\<open>d[k] = v\<close>: an existing key keeps its place, a new key goes last.\<close>

fun setitem :: "('k \<times> 'v) list \<Rightarrow> 'k \<Rightarrow> 'v \<Rightarrow> ('k \<times> 'v) list" where
  "setitem [] k v = [(k, v)]"
| "setitem ((k', w) # d) k v = (if k' = k then (k, v) # d else (k', w) # setitem d k v)"

text \<open>\<^verbatim>\<open>d.update(other)\<close>.\<close>

definition update_dict :: "('k \<times> 'v) list \<Rightarrow> ('k \<times> 'v) list \<Rightarrow> ('k \<times> 'v) list" where
  "update_dict d other = fold (\<lambda>(k, v) acc. setitem acc k v) other d"

text \<open>\<^verbatim>\<open>d[k]\<close>, which raises \<^verbatim>\<open>KeyError\<close> on a missing key.\<close>

definition getitem :: "('k \<times> 'v) list \<Rightarrow> 'k \<Rightarrow> error + 'v" where
  "getitem d k = (case map_of d k of None \<Rightarrow> Inl KeyError | Some v \<Rightarrow> Inr v)"

text \<open>\<^verbatim>\<open>Counter.update(xs)\<close>.\<close>

fun counter_add :: "('k \<times> nat) list \<Rightarrow> 'k \<Rightarrow> ('k \<times> nat) list" where
  "counter_add [] k = [(k, 1)]"
| "counter_add ((k', n) # d) k = (if k' = k then (k', Suc n) # d else (k', n) # counter_add d k)"

definition counter_update :: "('k \<times> nat) list \<Rightarrow> 'k list \<Rightarrow> ('k \<times> nat) list" where
  "counter_update d xs = fold (\<lambda>k acc. counter_add acc k) xs d"

section \<open>Graph ingestion: temporaries and coefficient packing\<close>

record CoefficientInfo =
  space_index :: nat
  offset_index :: nat
  cshape :: "nat list"
  vector :: tensor
  local_temp :: symbolic

text \<open>The sub-block sizes of a coefficient: one per sub-space of a mixed element.\<close>

definition shapes_of :: "coefficient \<Rightarrow> nat list" where
  "shapes_of f =
     (case ufl_element f of
        MixedElement es \<Rightarrow> map dimension es
      | FiniteElement fam n \<Rightarrow> [dimension (ufl_element f)])"

text \<open>
  The records the loop \<^verbatim>\<open>for i, shape in enumerate(shapes)\<close> emits from index \<open>i\<close> and
  running offset \<open>offset\<close> on, each with the dictionary key (its block size) it is filed
  under. \<open>tot\<close> is \<^verbatim>\<open>sum(shapes)\<close>.
\<close>

fun coefficient_infos ::
  "tensor \<Rightarrow> symbolic \<Rightarrow> nat \<Rightarrow> nat \<Rightarrow> nat \<Rightarrow> nat list \<Rightarrow> (nat \<times> CoefficientInfo) list" where
  "coefficient_infos vec lt tot i offset [] = []"
| "coefficient_infos vec lt tot i offset (s # ss) =
     (s, \<lparr>space_index = i, offset_index = offset, cshape = [tot],
          vector = vec, local_temp = lt\<rparr>)
     # coefficient_infos vec lt tot (Suc i) (offset + s) ss"

definition pack_coefficient ::
  "tensor \<Rightarrow> symbolic \<Rightarrow> nat list \<Rightarrow> (nat \<times> CoefficientInfo list) list
     \<Rightarrow> (nat \<times> CoefficientInfo list) list" where
  "pack_coefficient vec lt shapes coeff_vecs =
     fold (\<lambda>(s, cinfo) cv. setdefault_append cv s cinfo)
       (coefficient_infos vec lt (sum_list shapes) 0 0 shapes) coeff_vecs"

record collected =
  c_temps :: "(tensor \<times> symbolic) list"
  c_coeff_vecs :: "(nat \<times> CoefficientInfo list) list"
  c_seen_coeff :: "coefficient set"
  c_counter :: "(tensor \<times> nat) list"

text \<open>One iteration of \<^verbatim>\<open>for tensor in expression_dag\<close> of \<^verbatim>\<open>LocalKernelBuilder.__init__\<close>.\<close>

definition collect_tensor :: "tensor \<Rightarrow> collected \<Rightarrow> collected" where
  "collect_tensor t st =
     (let counter = counter_update (c_counter st) (operands t);
          temps = (case cls t of
                     Tensor k \<Rightarrow>
                       setdefault (c_temps st) t
                         (Symbol (''T'' @ string_of_nat (length (c_temps st))))
                   | _ \<Rightarrow> c_temps st)
      in case cls t of
           AssembledVector f \<Rightarrow>
             if f \<notin> c_seen_coeff st then
               \<lparr>c_temps = temps,
                c_coeff_vecs =
                  pack_coefficient t
                    (Symbol (''VecTemp'' @ string_of_nat (card (c_seen_coeff st))))
                    (shapes_of f) (c_coeff_vecs st),
                c_seen_coeff = insert f (c_seen_coeff st),
                c_counter = counter\<rparr>
             else st\<lparr>c_temps := temps, c_counter := counter\<rparr>
         | _ \<Rightarrow> st\<lparr>c_temps := temps, c_counter := counter\<rparr>)"

definition collect :: "tensor list \<Rightarrow> collected \<Rightarrow> collected" where
  "collect dag st = fold collect_tensor dag st"


section \<open>The external form compiler\<close>

datatype kernel_body = CoffeeNode string | LoopyCode string

record kernel =
  kernel_name :: string
  num_flops :: nat
  kernel_ucode :: kernel_body
  kernel_code :: string
  kernel_include_dirs :: "string list"

datatype subdomain = Otherwise | SubdomainId nat

datatype KernelInfo = KernelInfo (kinfo_kernel: kernel) (kinfo_integral_type: string)
  (kinfo_oriented: bool) (kinfo_needs_cell_sizes: bool) (kinfo_coefficient_map: "nat list")
  (kinfo_subdomain_id: subdomain)

record SplitKernel =
  split_indices :: "nat list"
  kinfo :: KernelInfo

record ContextKernel =
  tensor :: tensor
  cxt_coefficients :: "coefficient list"
  original_integral_type :: string
  tsfc_kernels :: "SplitKernel list"

type_synonym parameters = "(string \<times> string) list option"

text \<open>
  What the builders call and do not define: \<^verbatim>\<open>compile_terminal_form\<close> of the TSFC
  driver, \<^verbatim>\<open>Transformer.visit\<close>, and the order in which \<^verbatim>\<open>list(set(xs))\<close>
  enumerates the distinct strings of \<open>xs\<close>, which Python's string hashing decides.
\<close>

record externals =
  compile_terminal_form :: "tensor \<Rightarrow> string \<Rightarrow> parameters \<Rightarrow> bool \<Rightarrow> error + ContextKernel list"
  transformer_visit :: "string \<Rightarrow> string"
  hash_order :: "string list \<Rightarrow> string list"

section \<open>The builders' attributes\<close>

datatype bucket_entry = Filed symbolic | FiledSubdomain subdomain symbolic

datatype global_arg = GlobalArg (arg_name: arg_name) (arg_shape: "nat list") (dtype: string)

record builder_base =
  expression :: tensor
  tsfc_parameters :: parameters
  temps :: "(tensor \<times> symbolic) list"
  ref_counter :: "(tensor \<times> nat) list"
  expression_dag :: "tensor list"
  coefficient_vecs :: "(nat \<times> CoefficientInfo list) list"

record LocalKernelBuilder = builder_base +
  assembly_calls :: "(string \<times> bucket_entry list) list"
  templated_subkernels :: "string list"
  include_dirs :: "string list"
  oriented :: bool
  needs_cell_sizes :: bool

record LocalLoopyKernelBuilder = LocalKernelBuilder +
  gem_loopy_dict :: "(symbolic \<times> global_arg) list"
  indices :: "(string \<times> nat) list"
  needs_cell_orientations :: bool
  needs_cell_facets :: bool
  needs_mesh_layers :: bool
  integral_type :: string
  reads :: "symbolic list"

definition SCALAR_TYPE :: string where
  "SCALAR_TYPE = ''double''"

definition supported_integral_types :: "string list" where
  "supported_integral_types =
     [''cell'', ''interior_facet'', ''exterior_facet'',
      ''interior_facet_horiz_top'', ''interior_facet_horiz_bottom'', ''interior_facet_vert'',
      ''exterior_facet_top'', ''exterior_facet_bottom'', ''exterior_facet_vert'']"

definition supported_subdomain_types :: "string list" where
  "supported_subdomain_types = [''subdomains_exterior_facet'', ''subdomains_interior_facet'']"

definition subdomain_map :: "(string \<times> string) list" where
  "subdomain_map =
     [(''exterior_facet'', ''subdomains_exterior_facet''),
      (''exterior_facet_vert'', ''subdomains_exterior_facet''),
      (''interior_facet'', ''subdomains_interior_facet''),
      (''interior_facet_vert'', ''subdomains_interior_facet'')]"

fun fold_err :: "('a \<Rightarrow> 's \<Rightarrow> error + 's) \<Rightarrow> 'a list \<Rightarrow> 's \<Rightarrow> error + 's" where
  "fold_err f [] s = Inr s"
| "fold_err f (x # xs) s = (case f x s of Inl e \<Rightarrow> Inl e | Inr s' \<Rightarrow> fold_err f xs s')"

fun map_err :: "('a \<Rightarrow> error + 'b) \<Rightarrow> 'a list \<Rightarrow> error + 'b list" where
  "map_err f [] = Inr []"
| "map_err f (x # xs) =
     (case f x of Inl e \<Rightarrow> Inl e
      | Inr y \<Rightarrow> (case map_err f xs of Inl e \<Rightarrow> Inl e | Inr ys \<Rightarrow> Inr (y # ys)))"

text \<open>\<^verbatim>\<open>d[k].append(x)\<close>.\<close>

definition append_at :: "('k \<times> 'v list) list \<Rightarrow> 'k \<Rightarrow> 'v \<Rightarrow> error + ('k \<times> 'v list) list" where
  "append_at d k x =
     (case map_of d k of
        None \<Rightarrow> Inl KeyError
      | Some ys \<Rightarrow> Inr (map (\<lambda>(k', xs). if k' = k then (k', xs @ [x]) else (k', xs)) d))"

subsection \<open>Context kernels\<close>

fun compile_all ::
  "externals \<Rightarrow> parameters \<Rightarrow> bool \<Rightarrow> (nat \<times> tensor) list \<Rightarrow> error + ContextKernel list" where
  "compile_all ext p coffee [] = Inr []"
| "compile_all ext p coffee ((i, e) # rest) =
     (case compile_terminal_form ext e (''subkernel'' @ string_of_nat i @ ''_'') p coffee of
        Inl err \<Rightarrow> Inl err
      | Inr cxt_tuple \<Rightarrow>
          (case compile_all ext p coffee rest of
             Inl err \<Rightarrow> Inl err
           | Inr cks \<Rightarrow> Inr (cxt_tuple @ cks)))"

text \<open>
  The property \<^verbatim>\<open>context_kernels\<close>; \<open>coffee\<close> is \<^verbatim>\<open>True\<close> in \<^verbatim>\<open>LocalKernelBuilder\<close>
  and \<^verbatim>\<open>False\<close> in \<^verbatim>\<open>LocalLoopyKernelBuilder\<close>.
\<close>

definition context_kernels ::
  "externals \<Rightarrow> bool \<Rightarrow> builder_base \<Rightarrow> error + ContextKernel list" where
  "context_kernels ext coffee self =
     compile_all ext (tsfc_parameters self) coffee (enumerate 0 (map fst (temps self)))"

subsection \<open>Coefficient arguments of the flat builder\<close>

text \<open>
  Modelled from the spec: \<^verbatim>\<open>coefficient.split()\<close> of firedrake, which is not part of the
  sources; one part per sub-space of a mixed coefficient, the coefficient itself
  otherwise.
\<close>

definition split :: "coefficient \<Rightarrow> coefficient list" where
  "split c =
     (case ufl_element c of
        MixedElement es \<Rightarrow> map (\<lambda>e. Function (fcount c) e (cdim c)) es
      | FiniteElement fam n \<Rightarrow> [c])"

definition csym_info :: "nat \<Rightarrow> coefficient \<Rightarrow> symbolic list" where
  "csym_info i c =
     (case ufl_element c of
        MixedElement es \<Rightarrow>
          map (\<lambda>j. Symbol (''w_'' @ string_of_nat i @ ''_'' @ string_of_nat j))
            [0 ..< length (split c)]
      | FiniteElement fam n \<Rightarrow> [Symbol (''w_'' @ string_of_nat i)])"

definition coefficient_map :: "builder_base \<Rightarrow> (coefficient \<times> symbolic list) list" where
  "coefficient_map self =
     fold (\<lambda>(i, c) m. setitem m c (csym_info i c))
       (enumerate 0 (coefficients (expression self))) []"

definition coefficient :: "builder_base \<Rightarrow> coefficient \<Rightarrow> error + symbolic list" where
  "coefficient self c = getitem (coefficient_map self) c"

text \<open>
  \<^verbatim>\<open>[c for i in kinfo.coefficient_map for c in self.coefficient(local_coefficients[i])]\<close>
\<close>

fun coefficient_args :: "builder_base \<Rightarrow> coefficient list \<Rightarrow> nat list \<Rightarrow> error + symbolic list" where
  "coefficient_args self lcs [] = Inr []"
| "coefficient_args self lcs (i # js) =
     (if i < length lcs then
        (case coefficient self (lcs ! i) of
           Inl e \<Rightarrow> Inl e
         | Inr syms \<Rightarrow>
             (case coefficient_args self lcs js of
                Inl e \<Rightarrow> Inl e
              | Inr rest \<Rightarrow> Inr (syms @ rest)))
      else Inl IndexError)"


section \<open>Call assembly of the flat builder\<close>

text \<open>The local variables of \<^verbatim>\<open>LocalKernelBuilder._setup\<close>.\<close>

record setup_state =
  s_include_dirs :: "string list"
  s_templated_subkernels :: "string list"
  s_assembly_calls :: "(string \<times> bucket_entry list) list"
  s_subdomain_calls :: "(string \<times> bucket_entry list) list"
  s_coords :: "coefficient option"
  s_oriented :: bool
  s_needs_cell_sizes :: bool

definition cell_orientations_sym :: symbolic where
  "cell_orientations_sym = Symbol ''cell_orientations''"

definition coord_sym :: symbolic where
  "coord_sym = Symbol ''coords''"

definition cell_size_sym :: symbolic where
  "cell_size_sym = Symbol ''cell_sizes''"

definition it_sym :: string where
  "it_sym = ''i0''"

definition setup_init :: setup_state where
  "setup_init =
     \<lparr>s_include_dirs = [], s_templated_subkernels = [],
      s_assembly_calls = map (\<lambda>it. (it, [])) supported_integral_types,
      s_subdomain_calls = map (\<lambda>sd. (sd, [])) supported_subdomain_types,
      s_coords = None, s_oriented = False, s_needs_cell_sizes = False\<rparr>"

text \<open>
  The argument list of one call. \<^verbatim>\<open>eigen_tensor\<close> is not part of the sources: the
  target it builds from a temporary and the block indices is kept as \<open>EigenTensor\<close>.
\<close>

definition call_args :: "KernelInfo \<Rightarrow> symbolic list \<Rightarrow> symbolic list" where
  "call_args ki args =
     (let args1 = (if kinfo_oriented ki then cell_orientations_sym # args else args);
          args2 = (if kinfo_integral_type ki \<in>
                        set [''interior_facet'', ''exterior_facet'',
                             ''interior_facet_vert'', ''exterior_facet_vert'']
                   then args1 @ [FlatBlock (''&'' @ it_sym)] else args1)
      in if kinfo_needs_cell_sizes ki then args2 @ [cell_size_sym] else args2)"

text \<open>The routing of one call: the subdomain bucket or the plain bucket.\<close>

definition file_call ::
  "string \<Rightarrow> KernelInfo \<Rightarrow> symbolic \<Rightarrow> setup_state \<Rightarrow> error + setup_state" where
  "file_call it_type ki call st =
     (if kinfo_subdomain_id ki \<noteq> Otherwise then
        (case map_of subdomain_map (kinfo_integral_type ki) of
           None \<Rightarrow>
             Inl (NotImplementedError
                    (''Subdomains for integral type '' @ [CHR 0x27] @ kinfo_integral_type ki
                       @ [CHR 0x27] @ '' not implemented''))
         | Some sd_key \<Rightarrow>
             (case append_at (s_subdomain_calls st) sd_key
                     (FiledSubdomain (kinfo_subdomain_id ki) call) of
                Inl e \<Rightarrow> Inl e
              | Inr sc \<Rightarrow> Inr (st\<lparr>s_subdomain_calls := sc\<rparr>)))
      else
        (case append_at (s_assembly_calls st) it_type (Filed call) of
           Inl e \<Rightarrow> Inl e
         | Inr ac \<Rightarrow> Inr (st\<lparr>s_assembly_calls := ac\<rparr>)))"

text \<open>One iteration of \<^verbatim>\<open>for split_kernel in cxt_kernel.tsfc_kernels\<close>.\<close>

definition flat_split_kernel ::
  "externals \<Rightarrow> builder_base \<Rightarrow> ContextKernel \<Rightarrow> SplitKernel \<Rightarrow> setup_state
     \<Rightarrow> error + setup_state" where
  "flat_split_kernel ext self cxt_kernel split_kernel st0 =
     (let ki = kinfo split_kernel;
          st = st0\<lparr>s_needs_cell_sizes := s_needs_cell_sizes st0 \<or> kinfo_needs_cell_sizes ki\<rparr>
      in case coefficient_args self (cxt_coefficients cxt_kernel) (kinfo_coefficient_map ki) of
           Inl e \<Rightarrow> Inl e
         | Inr args \<Rightarrow>
             (case getitem (temps self) (tensor cxt_kernel) of
                Inl e \<Rightarrow> Inl e
              | Inr temp \<Rightarrow>
                  (case file_call (original_integral_type cxt_kernel) ki
                          (FunCall (kernel_name (kinfo_kernel ki))
                             (EigenTensor temp (split_indices split_kernel) # coord_sym
                                # call_args ki args)) st of
                     Inl e \<Rightarrow> Inl e
                   | Inr st1 \<Rightarrow>
                       (case kernel_ucode (kinfo_kernel ki) of
                          CoffeeNode src \<Rightarrow>
                            Inr (st1\<lparr>s_templated_subkernels :=
                                       s_templated_subkernels st1 @ [transformer_visit ext src],
                                     s_include_dirs :=
                                       s_include_dirs st1 @ kernel_include_dirs (kinfo_kernel ki),
                                     s_oriented := s_oriented st1 \<or> kinfo_oriented ki\<rparr>)
                        | LoopyCode src \<Rightarrow> Inl (AssertionError [])))))"

text \<open>The error \<^verbatim>\<open>ValueError("Integral type '%s' not recognized" % it_type)\<close>.\<close>

definition not_recognized :: "string \<Rightarrow> error" where
  "not_recognized it =
     ValueError (''Integral type '' @ [CHR 0x27] @ it @ [CHR 0x27] @ '' not recognized'')"

text \<open>One iteration of \<^verbatim>\<open>for cxt_kernel in self.context_kernels\<close>.\<close>

definition flat_context_kernel ::
  "externals \<Rightarrow> builder_base \<Rightarrow> ContextKernel \<Rightarrow> setup_state \<Rightarrow> error + setup_state" where
  "flat_context_kernel ext self cxt_kernel st =
     (if original_integral_type cxt_kernel \<notin> set supported_integral_types then
        Inl (not_recognized (original_integral_type cxt_kernel))
      else
        (case (case s_coords st of
                 Some coords \<Rightarrow>
                   if coordinates (ufl_domain (tensor cxt_kernel)) = coords then Inr st
                   else Inl (AssertionError ''Mismatching coordinates!'')
               | None \<Rightarrow>
                   Inr (st\<lparr>s_coords := Some (coordinates (ufl_domain (tensor cxt_kernel)))\<rparr>)) of
           Inl e \<Rightarrow> Inl e
         | Inr st1 \<Rightarrow>
             fold_err (flat_split_kernel ext self cxt_kernel) (tsfc_kernels cxt_kernel) st1))"

text \<open>The loop of \<^verbatim>\<open>_setup\<close> over given context kernels, before the buckets are merged.\<close>

definition flat_loop ::
  "externals \<Rightarrow> builder_base \<Rightarrow> ContextKernel list \<Rightarrow> setup_state \<Rightarrow> error + setup_state" where
  "flat_loop ext self cks st = fold_err (flat_context_kernel ext self) cks st"

definition flat_finish ::
  "externals \<Rightarrow> builder_base \<Rightarrow> setup_state \<Rightarrow> LocalKernelBuilder" where
  "flat_finish ext self st =
     \<lparr>expression = expression self, tsfc_parameters = tsfc_parameters self,
      temps = temps self, ref_counter = ref_counter self,
      expression_dag = expression_dag self, coefficient_vecs = coefficient_vecs self,
      assembly_calls = update_dict (s_assembly_calls st) (s_subdomain_calls st),
      templated_subkernels = s_templated_subkernels st,
      include_dirs = hash_order ext (remdups (s_include_dirs st)),
      oriented = s_oriented st,
      needs_cell_sizes = s_needs_cell_sizes st\<rparr>"

definition LocalKernelBuilder_setup ::
  "externals \<Rightarrow> builder_base \<Rightarrow> error + LocalKernelBuilder" where
  "LocalKernelBuilder_setup ext self =
     (case context_kernels ext True self of
        Inl e \<Rightarrow> Inl e
      | Inr cks \<Rightarrow>
          (case flat_loop ext self cks setup_init of
             Inl e \<Rightarrow> Inl e
           | Inr st \<Rightarrow> Inr (flat_finish ext self st)))"

definition collect_init :: "tensor \<Rightarrow> collected" where
  "collect_init e = \<lparr>c_temps = [], c_coeff_vecs = [], c_seen_coeff = {}, c_counter = [(e, 1)]\<rparr>"

definition LocalKernelBuilder_base :: "tensor \<Rightarrow> parameters \<Rightarrow> builder_base" where
  "LocalKernelBuilder_base e p =
     (let dag = traverse_dags [e]; st = collect dag (collect_init e)
      in \<lparr>expression = e, tsfc_parameters = p, temps = c_temps st,
          ref_counter = c_counter st, expression_dag = dag,
          coefficient_vecs = c_coeff_vecs st\<rparr>)"

text \<open>\<^verbatim>\<open>LocalKernelBuilder.__init__\<close>.\<close>

definition LocalKernelBuilder_new ::
  "externals \<Rightarrow> tensor \<Rightarrow> parameters \<Rightarrow> error + LocalKernelBuilder" where
  "LocalKernelBuilder_new ext e p =
     (if variable_layers (ufl_domain e) then
        Inl (NotImplementedError ''Variable layers not yet handled in Slate.'')
      else LocalKernelBuilder_setup ext (LocalKernelBuilder_base e p))"


section \<open>Static cost model\<close>

text \<open>\<^verbatim>\<open>int(x)\<close> on a number: truncation towards zero.\<close>

definition python_int :: "rat \<Rightarrow> int" where
  "python_int x = (if 0 \<le> x then \<lfloor>x\<rfloor> else \<lceil>x\<rceil>)"

definition startswith :: "string \<Rightarrow> string \<Rightarrow> bool" where
  "startswith s p = (take (length p) s = p)"

definition unpack_error :: error where
  "unpack_error = ValueError ''wrong number of values to unpack''"

text \<open>
  The dispatch \<^verbatim>\<open>_flops\<close> of \<^verbatim>\<open>expression_flops\<close>. The source computes with Python
  floats; the model computes with rationals, and \<open>python_int\<close> is applied where the
  source applies \<^verbatim>\<open>int\<close>.
\<close>

definition flops :: "tensor \<Rightarrow> error + rat" where
  "flops expr =
     (case cls expr of
        AssembledVector f \<Rightarrow> Inr 0
      | Block \<Rightarrow> Inr 0
      | Tensor k \<Rightarrow> Inr 0
      | Transpose \<Rightarrow> Inr 0
      | Negative \<Rightarrow> Inr 0
      | Factorization decomposition \<Rightarrow>
          (case shape expr of
             [m, n] \<Rightarrow>
               if decomposition \<in> set [''PartialPivLU'', ''FullPivLU''] then
                 Inr (2 / 3 * of_nat n ^ 3)
               else if decomposition \<in> set [''LLT'', ''LDLT''] then
                 Inr (1 / 3 * of_nat n ^ 3)
               else if decomposition \<in> set [''HouseholderQR'', ''ColPivHouseholderQR'',
                                              ''FullPivHouseholderQR''] then
                 Inr (4 / 3 * of_nat n ^ 3)
               else if decomposition \<in> set [''BDCSVD'', ''JacobiSVD''] then
                 Inr (12 * of_nat n ^ 3)
               else Inr 0
           | _ \<Rightarrow> Inl unpack_error)
      | Inverse \<Rightarrow>
          (case shape expr of
             [m, n] \<Rightarrow> if m = n then Inr (2 / 3 * of_nat n ^ 3) else Inl (AssertionError [])
           | _ \<Rightarrow> Inl unpack_error)
      | Add \<Rightarrow> Inr (of_nat (prod_list (shape expr)))
      | Mul \<Rightarrow>
          (case operands expr of
             [A, B] \<Rightarrow>
               if shape A = [] \<or> shape B = [] then Inl unpack_error
               else Inr (of_nat (2 * last (shape A) * prod_list (butlast (shape A))
                                   * prod_list (tl (shape B))))
           | _ \<Rightarrow> Inl unpack_error)
      | Solve \<Rightarrow>
          (case operands expr of
             [Afac, B] \<Rightarrow>
               if shape B = [] then Inl unpack_error
               else (case shape Afac of
                       [m, n] \<Rightarrow> Inr (of_nat ((m * n + n ^ 2) * prod_list (tl (shape B))))
                     | _ \<Rightarrow> Inl unpack_error)
           | _ \<Rightarrow> Inl unpack_error))"

definition expression_flops :: "LocalKernelBuilder \<Rightarrow> error + int" where
  "expression_flops self =
     (case map_err flops (traverse_dags [expression self]) of
        Inl e \<Rightarrow> Inl e
      | Inr costs \<Rightarrow> Inr (python_int (sum_list costs)))"

text \<open>\<^verbatim>\<open>terminal_flops\<close>, over the context kernels the builder resolved.\<close>

definition terminal_flops :: "LocalKernelBuilder \<Rightarrow> ContextKernel list \<Rightarrow> int" where
  "terminal_flops self cks =
     int (fold (\<lambda>ctx flops0.
                 fold (\<lambda>k fl.
                        if original_integral_type ctx = ''cell'' then
                          fl + num_flops (kinfo_kernel (kinfo k))
                        else if startswith (original_integral_type ctx) ''interior_facet'' then
                          fl + num_flops (kinfo_kernel (kinfo k))
                                 * num_facets (ufl_domain (expression self))
                        else fl)
                   (tsfc_kernels ctx) flops0)
            cks 0)"

definition LocalKernelBuilder_integral_type :: "LocalKernelBuilder \<Rightarrow> string" where
  "LocalKernelBuilder_integral_type self = ''cell''"

definition LocalKernelBuilder_needs_cell_facets :: "ContextKernel list \<Rightarrow> bool" where
  "LocalKernelBuilder_needs_cell_facets cks =
     list_ex (\<lambda>cxt_k. original_integral_type cxt_k \<in>
        set [''interior_facet'', ''exterior_facet'',
             ''interior_facet_vert'', ''exterior_facet_vert'']) cks"

definition LocalKernelBuilder_needs_mesh_layers :: "ContextKernel list \<Rightarrow> bool" where
  "LocalKernelBuilder_needs_mesh_layers cks =
     list_ex (\<lambda>cxt_k. original_integral_type cxt_k \<in>
        set [''interior_facet_horiz_top'', ''interior_facet_horiz_bottom'',
             ''exterior_facet_bottom'', ''exterior_facet_top'']) cks"

section \<open>The structured-loop builder\<close>

record collected_loopy = collected +
  c_gem_loopy_dict :: "(symbolic \<times> global_arg) list"
  c_shape :: "nat option"

text \<open>
  The name of a GEM temporary, \<^verbatim>\<open>temps[tensor].children[0].name\<close>.
\<close>

fun gem_name :: "symbolic \<Rightarrow> error + string" where
  "gem_name (Indexed nm shp idx) = Inr nm"
| "gem_name _ = Inl (AssertionError [])"

text \<open>
  One iteration of \<^verbatim>\<open>for tensor in expression_dag\<close> of
  \<^verbatim>\<open>LocalLoopyKernelBuilder.__init__\<close>. \<open>c_shape\<close> is the local variable \<^verbatim>\<open>shape\<close>,
  which only the packing loop of an earlier iteration binds.
\<close>

definition collect_tensor_loopy :: "tensor \<Rightarrow> collected_loopy \<Rightarrow> error + collected_loopy" where
  "collect_tensor_loopy t st0 =
     (let st = st0\<lparr>c_counter := counter_update (c_counter st0) (operands t)\<rparr>
      in case (case cls t of
                 Tensor k \<Rightarrow>
                   (let temps' = setdefault (c_temps st) t
                          (Indexed (''T'' @ string_of_nat (length (c_temps st))) (shape t) [3, 3])
                    in case getitem temps' t of
                         Inl e \<Rightarrow> Inl e
                       | Inr temp \<Rightarrow>
                           (case gem_name temp of
                              Inl e \<Rightarrow> Inl e
                            | Inr nm \<Rightarrow>
                                Inr (st\<lparr>c_temps := temps',
                                        c_gem_loopy_dict :=
                                          setdefault (c_gem_loopy_dict st) temp
                                            (GlobalArg (Name nm) (shape t) SCALAR_TYPE)\<rparr>)))
               | _ \<Rightarrow> Inr st) of
           Inl e \<Rightarrow> Inl e
         | Inr st1 \<Rightarrow>
             (case cls t of
                AssembledVector f \<Rightarrow>
                  (case getitem (c_temps st1) t of
                     Inl e \<Rightarrow> Inl e
                   | Inr temp \<Rightarrow>
                       (case c_shape st1 of
                          None \<Rightarrow> Inl (UnboundLocalError ''shape'')
                        | Some shp \<Rightarrow>
                            (let st2 = st1\<lparr>c_gem_loopy_dict :=
                                             setdefault (c_gem_loopy_dict st1) temp
                                               (GlobalArg (FunctionName f) [shp] SCALAR_TYPE)\<rparr>
                             in if f \<notin> c_seen_coeff st2 then
                                  Inr (st2\<lparr>c_coeff_vecs :=
                                            pack_coefficient t
                                              (GemVariable (''VecTemp'' @ string_of_nat
                                                              (card (c_seen_coeff st2)))
                                                 (shapes_of f))
                                              (shapes_of f) (c_coeff_vecs st2),
                                          c_seen_coeff := insert f (c_seen_coeff st2),
                                          c_shape := (if shapes_of f = [] then c_shape st2
                                                      else Some (last (shapes_of f)))\<rparr>)
                                else Inr st2)))
              | _ \<Rightarrow> Inr st1))"


definition collect_loopy_init :: "tensor \<Rightarrow> collected_loopy" where
  "collect_loopy_init e =
     \<lparr>c_temps = [], c_coeff_vecs = [], c_seen_coeff = {}, c_counter = [(e, 1)],
      c_gem_loopy_dict = [], c_shape = None\<rparr>"

text \<open>The local variables of \<^verbatim>\<open>LocalLoopyKernelBuilder._setup\<close>, and \<^verbatim>\<open>self.indices\<close>.\<close>

record loopy_state =
  l_include_dirs :: "string list"
  l_templated_subkernels :: "string list"
  l_assembly_calls :: "(string \<times> bucket_entry list) list"
  l_subdomain_calls :: "(string \<times> bucket_entry list) list"
  l_coords :: "coefficient option"
  l_needs_cell_orientations :: bool
  l_needs_cell_sizes :: bool
  l_needs_cell_facets :: bool
  l_needs_mesh_layers :: bool
  l_indices :: "(string \<times> nat) list"
  l_integral_type :: "string option"
  l_inner :: "(KernelInfo \<times> symbolic list) option"

definition loopy_init :: loopy_state where
  "loopy_init =
     \<lparr>l_include_dirs = [], l_templated_subkernels = [],
      l_assembly_calls = map (\<lambda>it. (it, [])) supported_integral_types,
      l_subdomain_calls = map (\<lambda>sd. (sd, [])) supported_subdomain_types,
      l_coords = None, l_needs_cell_orientations = False, l_needs_cell_sizes = False,
      l_needs_cell_facets = False, l_needs_mesh_layers = False, l_indices = [],
      l_integral_type = None, l_inner = None\<rparr>"

definition coordinates_arg :: string where
  "coordinates_arg = ''coords''"

definition cell_size_arg :: string where
  "cell_size_arg = ''cell_sizes''"

definition cell_orientations_arg :: string where
  "cell_orientations_arg = ''orientations''"

text \<open>
  Modelled from the spec: \<^verbatim>\<open>element.family()\<close> of UFL, which is not part of the
  sources; the family name of the element.
\<close>

fun element_family :: "ufl_element \<Rightarrow> string" where
  "element_family (FiniteElement fam n) = fam"
| "element_family (MixedElement es) = ''Mixed''"

definition index_extent :: "coefficient \<Rightarrow> nat" where
  "index_extent c =
     (if element_family (ufl_element c) = ''Real'' then cdim c
      else dimension (ufl_element c))"

text \<open>
  \<^verbatim>\<open>create_index\<close>: every call gets a fresh \<^verbatim>\<open>namer\<close>, whose first name is \<^verbatim>\<open>i0\<close>.
\<close>

definition create_index :: "nat \<Rightarrow> (string \<times> nat) list \<Rightarrow> symbolic \<times> (string \<times> nat) list" where
  "create_index extent idxs = (Variable (Name ''i0''), idxs @ [(''i0'', extent)])"

text \<open>\<^verbatim>\<open>[coefficients[i] for i in kinfo.coefficient_map]\<close>\<close>

fun local_coefficients :: "coefficient list \<Rightarrow> nat list \<Rightarrow> error + coefficient list" where
  "local_coefficients cs [] = Inr []"
| "local_coefficients cs (i # js) =
     (if i < length cs then
        (case local_coefficients cs js of Inl e \<Rightarrow> Inl e | Inr rest \<Rightarrow> Inr (cs ! i # rest))
      else Inl IndexError)"

text \<open>
  \<^verbatim>\<open>[(c, self.coefficient_vecs[c]) for c in ...]\<close>: the keys of \<^verbatim>\<open>coefficient_vecs\<close> are
  block sizes (integers) and \<^verbatim>\<open>c\<close> is a coefficient function, which is equal to none of
  them, so that the lookup raises \<^verbatim>\<open>KeyError\<close> at the first \<^verbatim>\<open>c\<close>.
\<close>

fun coefficient_kernel_data :: "coefficient list \<Rightarrow> error + (coefficient \<times> string) list" where
  "coefficient_kernel_data [] = Inr []"
| "coefficient_kernel_data (c # cs) = Inl KeyError"

text \<open>The loop \<^verbatim>\<open>for c, name in kernel_data\<close>.\<close>

definition read_arguments ::
  "(coefficient \<times> string) list \<Rightarrow> (string \<times> nat) list
     \<Rightarrow> symbolic list \<times> (string \<times> nat) list" where
  "read_arguments kernel_data idxs =
     fold (\<lambda>(c, nm) (rs, ix).
            (let (idx, ix') = create_index (index_extent c) ix
             in (rs @ [SubArrayRef [idx] (Subscript (Variable (Name nm)) [idx])], ix')))
       kernel_data ([], idxs)"

text \<open>One iteration of \<^verbatim>\<open>for inner in cxt_kernel.tsfc_kernels\<close>.\<close>

definition loopy_inner ::
  "builder_base \<Rightarrow> (symbolic \<times> global_arg) list \<Rightarrow> ContextKernel \<Rightarrow> symbolic \<Rightarrow> SplitKernel
     \<Rightarrow> loopy_state \<Rightarrow> error + loopy_state" where
  "loopy_inner self gld cxt_kernel temp inner st0 =
     (let ki = kinfo inner;
          st = st0\<lparr>l_templated_subkernels :=
                     l_templated_subkernels st0 @ [kernel_code (kinfo_kernel ki)],
                   l_include_dirs :=
                     l_include_dirs st0 @ kernel_include_dirs (kinfo_kernel ki)\<rparr>
      in if is_mixed (tensor cxt_kernel) then
           Inl (ValueError ''For now only non mixed supported'')
         else
           (case getitem gld temp of
              Inl e \<Rightarrow> Inl e
            | Inr ga \<Rightarrow>
                (let output = SubArrayRef [Variable (Name ''i''), Variable (Name ''i0'')]
                       (Subscript (Variable (arg_name ga))
                          [Variable (Name ''i''), Variable (Name ''i0'')]);
                     mesh = ufl_domain (tensor cxt_kernel);
                     kd0 = [(coordinates mesh, coordinates_arg)];
                     kd1 = (if kinfo_oriented ki
                            then kd0 @ [(cell_orientations mesh, cell_orientations_arg)]
                            else kd0);
                     kd2 = (if kinfo_needs_cell_sizes ki
                            then kd1 @ [(cell_sizes mesh, cell_size_arg)] else kd1);
                     st1 = st\<lparr>l_needs_cell_orientations :=
                                l_needs_cell_orientations st \<or> kinfo_oriented ki,
                              l_needs_cell_sizes :=
                                l_needs_cell_sizes st \<or> kinfo_needs_cell_sizes ki\<rparr>
                 in case local_coefficients (cxt_coefficients cxt_kernel)
                           (kinfo_coefficient_map ki) of
                      Inl e \<Rightarrow> Inl e
                    | Inr lcs \<Rightarrow>
                        (case coefficient_kernel_data (concat (map split lcs)) of
                           Inl e \<Rightarrow> Inl e
                         | Inr kd3 \<Rightarrow>
                             (let (rs, idxs) = read_arguments (kd2 @ kd3) (l_indices st1)
                              in if original_integral_type cxt_kernel = ''cell'' then
                                   (if kinfo_subdomain_id ki \<noteq> Otherwise then
                                      Inl (NotImplementedError
                                             ''No subdomain markers for cells yet'')
                                    else
                                      (case append_at (l_assembly_calls st1)
                                              (original_integral_type cxt_kernel)
                                              (Filed (CallInstruction [output]
                                                 (Call (Variable (Name (kernel_name
                                                    (kinfo_kernel ki)))) rs)
                                                 None True ''inner_call'')) of
                                         Inl e \<Rightarrow> Inl e
                                       | Inr ac \<Rightarrow>
                                           Inr (st1\<lparr>l_assembly_calls := ac,
                                                    l_indices := idxs,
                                                    l_inner := Some (ki, rs)\<rparr>)))
                                 else
                                   Inl (ValueError (''Unhandled integral type ''
                                          @ original_integral_type cxt_kernel)))))))"

text \<open>One iteration of \<^verbatim>\<open>for cxt_kernel in self.context_kernels\<close>.\<close>

definition loopy_context_kernel ::
  "builder_base \<Rightarrow> (symbolic \<times> global_arg) list \<Rightarrow> ContextKernel \<Rightarrow> loopy_state
     \<Rightarrow> error + loopy_state" where
  "loopy_context_kernel self gld cxt_kernel st =
     (case getitem (temps self) (tensor cxt_kernel) of
        Inl e \<Rightarrow> Inl e
      | Inr temp \<Rightarrow>
          if original_integral_type cxt_kernel \<notin> set supported_integral_types then
            Inl (not_recognized (original_integral_type cxt_kernel))
          else
            (case (case l_coords st of
                     Some coords \<Rightarrow>
                       if coordinates (ufl_domain (tensor cxt_kernel)) = coords then Inr st
                       else Inl (AssertionError ''Mismatching coordinates!'')
                   | None \<Rightarrow>
                       Inr (st\<lparr>l_coords :=
                                 Some (coordinates (ufl_domain (tensor cxt_kernel)))\<rparr>)) of
               Inl e \<Rightarrow> Inl e
             | Inr st1 \<Rightarrow>
                 fold_err (loopy_inner self gld cxt_kernel temp) (tsfc_kernels cxt_kernel)
                   (st1\<lparr>l_integral_type := Some (original_integral_type cxt_kernel)\<rparr>)))"

definition loopy_loop ::
  "builder_base \<Rightarrow> (symbolic \<times> global_arg) list \<Rightarrow> ContextKernel list \<Rightarrow> loopy_state
     \<Rightarrow> error + loopy_state" where
  "loopy_loop self gld cks st = fold_err (loopy_context_kernel self gld) cks st"

text \<open>
  The assignments that end \<^verbatim>\<open>_setup\<close>: \<^verbatim>\<open>integral_type\<close>, \<^verbatim>\<open>kinfo\<close> and \<^verbatim>\<open>reads\<close> are
  variables of the loops, unbound when no iteration ran.
\<close>

definition loopy_finish ::
  "externals \<Rightarrow> builder_base \<Rightarrow> (symbolic \<times> global_arg) list \<Rightarrow> loopy_state
     \<Rightarrow> error + LocalLoopyKernelBuilder" where
  "loopy_finish ext self gld st =
     (case l_integral_type st of
        None \<Rightarrow> Inl (UnboundLocalError ''integral_type'')
      | Some it \<Rightarrow>
          (case l_inner st of
             None \<Rightarrow> Inl (UnboundLocalError ''kinfo'')
           | Some (ki, rs) \<Rightarrow>
               Inr \<lparr>expression = expression self, tsfc_parameters = tsfc_parameters self,
                    temps = temps self, ref_counter = ref_counter self,
                    expression_dag = expression_dag self,
                    coefficient_vecs = coefficient_vecs self,
                    assembly_calls = l_assembly_calls st,
                    templated_subkernels = l_templated_subkernels st,
                    include_dirs = hash_order ext (remdups (l_include_dirs st)),
                    oriented = kinfo_oriented ki,
                    needs_cell_sizes = l_needs_cell_sizes st,
                    gem_loopy_dict = gld,
                    indices = l_indices st,
                    needs_cell_orientations = l_needs_cell_orientations st,
                    needs_cell_facets = l_needs_cell_facets st,
                    needs_mesh_layers = l_needs_mesh_layers st,
                    integral_type = it,
                    reads = rs\<rparr>))"

definition LocalLoopyKernelBuilder_setup ::
  "externals \<Rightarrow> builder_base \<Rightarrow> (symbolic \<times> global_arg) list
     \<Rightarrow> error + LocalLoopyKernelBuilder" where
  "LocalLoopyKernelBuilder_setup ext self gld =
     (case context_kernels ext False self of
        Inl e \<Rightarrow> Inl e
      | Inr cks \<Rightarrow>
          (case loopy_loop self gld cks loopy_init of
             Inl e \<Rightarrow> Inl e
           | Inr st \<Rightarrow> loopy_finish ext self gld st))"

definition LocalLoopyKernelBuilder_base ::
  "tensor \<Rightarrow> parameters \<Rightarrow> collected_loopy \<Rightarrow> builder_base" where
  "LocalLoopyKernelBuilder_base e p st =
     \<lparr>expression = e, tsfc_parameters = p, temps = c_temps st,
      ref_counter = c_counter st, expression_dag = traverse_dags [e],
      coefficient_vecs = c_coeff_vecs st\<rparr>"

text \<open>\<^verbatim>\<open>LocalLoopyKernelBuilder.__init__\<close>.\<close>

definition LocalLoopyKernelBuilder_new ::
  "externals \<Rightarrow> tensor \<Rightarrow> parameters \<Rightarrow> error + LocalLoopyKernelBuilder" where
  "LocalLoopyKernelBuilder_new ext e p =
     (if variable_layers (ufl_domain e) then
        Inl (NotImplementedError ''Variable layers not yet handled in Slate.'')
      else
        (case fold_err collect_tensor_loopy (traverse_dags [e]) (collect_loopy_init e) of
           Inl err \<Rightarrow> Inl err
         | Inr st \<Rightarrow>
             LocalLoopyKernelBuilder_setup ext (LocalLoopyKernelBuilder_base e p st)
               (c_gem_loopy_dict st)))"


section \<open>Notions used by the properties\<close>

text \<open>\<^verbatim>\<open>isinstance(tensor, slate.Tensor)\<close>.\<close>

definition is_Tensor :: "tensor \<Rightarrow> bool" where
  "is_Tensor t = (case cls t of Tensor k \<Rightarrow> True | _ \<Rightarrow> False)"

text \<open>All packing records of \<^verbatim>\<open>coefficient_vecs\<close>, each with the block size it is filed under.\<close>

definition packing_records ::
  "(nat \<times> CoefficientInfo list) list \<Rightarrow> (nat \<times> CoefficientInfo) list" where
  "packing_records cv = concat (map (\<lambda>(s, cis). map (Pair s) cis) cv)"

text \<open>The packing records whose owning vector refers to the coefficient \<open>f\<close>.\<close>

definition records_of ::
  "coefficient \<Rightarrow> (nat \<times> CoefficientInfo list) list \<Rightarrow> (nat \<times> CoefficientInfo) list" where
  "records_of f cv =
     filter (\<lambda>(s, r). cls (vector r) = AssembledVector f) (packing_records cv)"

text \<open>The kernel a call record calls.\<close>

fun callee :: "symbolic \<Rightarrow> string" where
  "callee (FunCall nm args) = nm"
| "callee (CallInstruction outs (Call (Variable (Name nm)) rs) preds final ident) = nm"
| "callee _ = []"

fun entry_callee :: "bucket_entry \<Rightarrow> string" where
  "entry_callee (Filed c) = callee c"
| "entry_callee (FiledSubdomain sd c) = callee c"

text \<open>The kernels called from the bucket \<open>it\<close>, in the order of the bucket.\<close>

definition bucket_callees :: "(string \<times> bucket_entry list) list \<Rightarrow> string \<Rightarrow> string list option" where
  "bucket_callees calls it = map_option (map entry_callee) (map_of calls it)"

text \<open>The kernels called from every bucket, bucket by bucket.\<close>

definition callees_of :: "(string \<times> bucket_entry list) list \<Rightarrow> (string \<times> string list) list" where
  "callees_of calls = map (\<lambda>(k, es). (k, map entry_callee es)) calls"

text \<open>The class of an exception, without its message.\<close>

fun error_class :: "error \<Rightarrow> string" where
  "error_class (NotImplementedError msg) = ''NotImplementedError''"
| "error_class (ValueError msg) = ''ValueError''"
| "error_class (AssertionError msg) = ''AssertionError''"
| "error_class KeyError = ''KeyError''"
| "error_class IndexError = ''IndexError''"
| "error_class (UnboundLocalError msg) = ''UnboundLocalError''"
| "error_class (CompilerError msg) = ''CompilerError''"

text \<open>
  Two built builders agree: every iteration-domain bucket calls the same kernels in the
  same order, and the flags for cell sizes and cell orientations are the same.
\<close>

definition builders_agree :: "LocalKernelBuilder \<Rightarrow> LocalLoopyKernelBuilder \<Rightarrow> bool" where
  "builders_agree b b' \<longleftrightarrow>
     list_all (\<lambda>it. bucket_callees (assembly_calls b) it = bucket_callees (assembly_calls b') it)
       supported_integral_types
     \<and> needs_cell_sizes b = needs_cell_sizes b'
     \<and> oriented b = needs_cell_orientations b'"

text \<open>
  The two lowering targets have the same outcome: the same class of error, or two
  builders that agree.
\<close>

definition same_outcome ::
  "error + LocalKernelBuilder \<Rightarrow> error + LocalLoopyKernelBuilder \<Rightarrow> bool" where
  "same_outcome r r' =
     (case r of
        Inl e \<Rightarrow> (case r' of Inl e' \<Rightarrow> error_class e = error_class e' | Inr b' \<Rightarrow> False)
      | Inr b \<Rightarrow> (case r' of Inl e' \<Rightarrow> False | Inr b' \<Rightarrow> builders_agree b b'))"

text \<open>The bucket maps of \<^verbatim>\<open>LocalKernelBuilder._setup\<close> have their initial keys.\<close>

definition flat_keys :: "setup_state \<Rightarrow> bool" where
  "flat_keys st \<longleftrightarrow> map fst (s_assembly_calls st) = supported_integral_types
     \<and> map fst (s_subdomain_calls st) = supported_subdomain_types"

text \<open>The temporaries are named \<^verbatim>\<open>T0\<close>, \<^verbatim>\<open>T1\<close>, ... in the order of the dictionary.\<close>

definition temp_names :: "(tensor \<times> symbolic) list \<Rightarrow> bool" where
  "temp_names ts \<longleftrightarrow>
     map snd ts = map (\<lambda>i. Symbol (''T'' @ string_of_nat i)) [0 ..< length ts]"

text \<open>The two loops have filed the same kernels and raised the same flags.\<close>

definition loops_agree :: "loopy_state \<Rightarrow> setup_state \<Rightarrow> bool" where
  "loops_agree sl sf \<longleftrightarrow>
     callees_of (l_assembly_calls sl) = callees_of (s_assembly_calls sf)
     \<and> l_needs_cell_sizes sl = s_needs_cell_sizes sf
     \<and> l_needs_cell_orientations sl = s_oriented sf"

definition recognized_decompositions :: "string list" where
  "recognized_decompositions =
     [''PartialPivLU'', ''FullPivLU'', ''LLT'', ''LDLT'', ''HouseholderQR'',
      ''ColPivHouseholderQR'', ''FullPivHouseholderQR'', ''BDCSVD'', ''JacobiSVD'']"

subsection \<open>Example inputs\<close>

definition P1 :: ufl_element where
  "P1 = FiniteElement ''Lagrange'' 3"

definition example_mesh :: mesh where
  "example_mesh =
     Mesh False (Function 0 (FiniteElement ''Lagrange'' 6) 2) (Function 1 P1 1)
       (Function 2 P1 1) 3"

text \<open>A terminal matrix on \<open>P1\<close>, a cell integral.\<close>

definition example_A :: tensor where
  "example_A = TensorBase (Tensor 0) [3, 3] False example_mesh [] []"

text \<open>A coefficient on a mixed space with sub-blocks of sizes 1 and 2.\<close>

definition example_f :: coefficient where
  "example_f =
     Function 7 (MixedElement [FiniteElement ''Discontinuous Lagrange'' 1,
                               FiniteElement ''Lagrange'' 2]) 1"

definition example_v :: tensor where
  "example_v = TensorBase (AssembledVector example_f) [3] True example_mesh [example_f] []"

text \<open>A second node that refers to the same coefficient.\<close>

definition example_w :: tensor where
  "example_w = TensorBase (AssembledVector example_f) [3] False example_mesh [example_f] []"

text \<open>\<open>A * v + A * w\<close>: the terminal is shared, and two nodes refer to one coefficient.\<close>

definition example_Av :: tensor where
  "example_Av = TensorBase Mul [3] False example_mesh [example_f] [example_A, example_v]"

definition example_Aw :: tensor where
  "example_Aw = TensorBase Mul [3] False example_mesh [example_f] [example_A, example_w]"

definition example_sum :: tensor where
  "example_sum = TensorBase Add [3] False example_mesh [example_f] [example_Av, example_Aw]"

text \<open>A terminal whose output is mixed.\<close>

definition example_M :: tensor where
  "example_M = TensorBase (Tensor 1) [3, 3] True example_mesh [] []"

text \<open>
  A form compiler that resolves every terminal into one context kernel of the kind
  \<open>it\<close> with one sub-kernel, the same for both lowering targets.
\<close>

definition example_kernel :: "string \<Rightarrow> string \<Rightarrow> kernel" where
  "example_kernel prefix it =
     \<lparr>kernel_name = prefix @ it @ ''_integral'', num_flops = 54,
      kernel_ucode = CoffeeNode ''body'', kernel_code = ''body'',
      kernel_include_dirs = [''include'']\<rparr>"

definition example_context :: "string \<Rightarrow> tensor \<Rightarrow> string \<Rightarrow> ContextKernel" where
  "example_context it t prefix =
     \<lparr>tensor = t, cxt_coefficients = [], original_integral_type = it,
      tsfc_kernels =
        [\<lparr>split_indices = [0, 0],
          kinfo = KernelInfo (example_kernel prefix it) it False True [] Otherwise\<rparr>]\<rparr>"

definition example_compile ::
  "string \<Rightarrow> tensor \<Rightarrow> string \<Rightarrow> parameters \<Rightarrow> bool \<Rightarrow> error + ContextKernel list" where
  "example_compile it t prefix p coffee = Inr [example_context it t prefix]"

definition example_ext :: "string \<Rightarrow> externals" where
  "example_ext it =
     \<lparr>compile_terminal_form = example_compile it,
      transformer_visit = (\<lambda>src. src), hash_order = (\<lambda>xs. xs)\<rparr>"

section \<open>Verified properties\<close>

subsection \<open>Static cost model\<close>

lemma floor_inverse_cost: "\<lfloor>128 / 3 :: rat\<rfloor> = 42"
  by (rule floor_unique) simp_all

text \<open>
  Claim C7. The cost model on the spec's examples: an \<open>Add\<close> node of shape \<open>(3,3)\<close>
  contributes 9; a \<open>Mul\<close> of a \<open>(3,4)\<close> operand by a \<open>(4,5)\<close> operand contributes
  \<open>2\<cdot>4\<cdot>3\<cdot>5 = 120\<close>; an \<open>Inverse\<close> of a \<open>4\<times>4\<close> operand contributes \<open>(2/3)\<cdot>4\<^sup>3 = 128/3\<close>,
  which the final \<^verbatim>\<open>int\<close> of \<^verbatim>\<open>expression_flops\<close> turns into 42; and \<open>Tensor\<close>,
  \<open>AssembledVector\<close>, \<open>Block\<close>, \<open>Transpose\<close> and \<open>Negative\<close> nodes contribute 0.
\<close>

theorem cost_model_examples:
  "flops (TensorBase Add [3, 3] mx d cs ops) = Inr 9
   \<and> flops (TensorBase Mul s mx d cs
        [TensorBase ca [3, 4] ma da csa opsa, TensorBase cb [4, 5] mb db csb opsb]) = Inr 120
   \<and> flops (TensorBase Inverse [4, 4] mx d cs ops) = Inr (128 / 3)
   \<and> expression_flops (self\<lparr>expression :=
        TensorBase Inverse [4, 4] mx d cs [TensorBase (Tensor k) [4, 4] ma da csa []]\<rparr>) = Inr 42
   \<and> flops (TensorBase (Tensor k) s mx d cs ops) = Inr 0
   \<and> flops (TensorBase (AssembledVector f) s mx d cs ops) = Inr 0
   \<and> flops (TensorBase Block s mx d cs ops) = Inr 0
   \<and> flops (TensorBase Transpose s mx d cs ops) = Inr 0
   \<and> flops (TensorBase Negative s mx d cs ops) = Inr 0"
  by (simp add: flops_def expression_flops_def traverse_dags_def python_int_def
      floor_inverse_cost)

text \<open>
  Claim C8. A \<open>Factorization\<close> node (a matrix, of shape \<open>(m, n)\<close>) whose decomposition
  family is none of the recognized ones is priced at zero, without an error; and the cost
  of the expression that factorizes a terminal with such a family is computed, and is 0.
\<close>

theorem unknown_factorization_costs_zero:
  assumes "decomposition \<notin> set recognized_decompositions"
  shows "flops (TensorBase (Factorization decomposition) [m, n] mx d cs ops) = Inr 0
    \<and> expression_flops (self\<lparr>expression :=
         TensorBase (Factorization decomposition) [m, n] mx d cs
           [TensorBase (Tensor k) [m, n] ma da csa []]\<rparr>) = Inr 0"
  using assms
  by (simp add: flops_def expression_flops_def traverse_dags_def python_int_def
      recognized_decompositions_def)

theorem unknown_factorization_costs_zero_witness:
  "''SchurComplement'' \<notin> set recognized_decompositions
   \<and> flops (TensorBase (Factorization ''SchurComplement'') [4, 4] False example_mesh []
        [example_A]) = Inr 0"
proof -
  have h: "''SchurComplement'' \<notin> set recognized_decompositions"
    by (simp add: recognized_decompositions_def)
  from unknown_factorization_costs_zero [OF h] h show ?thesis
    by blast
qed



subsection \<open>Sequential loops\<close>

lemma fold_err_append:
  "fold_err f (xs @ ys) s = (case fold_err f xs s of Inl e \<Rightarrow> Inl e | Inr s' \<Rightarrow> fold_err f ys s')"
  by (induction xs arbitrary: s) (auto split: sum.splits)

lemma fold_err_invariant:
  assumes "fold_err f xs s = Inr s'" and "P s"
    and "\<And>x a b. x \<in> set xs \<Longrightarrow> P a \<Longrightarrow> f x a = Inr b \<Longrightarrow> P b"
  shows "P s'"
  using assms
proof (induction xs arbitrary: s)
  case Nil
  then show ?case by simp
next
  case (Cons x xs)
  from Cons.prems(1) obtain a where a: "f x s = Inr a" and rest: "fold_err f xs a = Inr s'"
    by (auto split: sum.splits)
  have pa: "P a" using Cons.prems(3) [of x s a] Cons.prems(2) a by simp
  show ?case
  proof (rule Cons.IH [OF rest pa])
    fix y a0 a1
    assume "y \<in> set xs" "P a0" "f y a0 = Inr a1"
    then show "P a1" using Cons.prems(3) [of y a0 a1] by simp
  qed
qed

lemma fold_err_fails:
  assumes "x \<in> set xs" and "\<And>a. \<exists>e. f x a = Inl e"
  shows "\<exists>e. fold_err f xs s = Inl e"
  using assms(1)
proof (induction xs arbitrary: s)
  case Nil
  then show ?case by simp
next
  case (Cons y ys)
  show ?case
  proof (cases "f y s")
    case (Inl e)
    then show ?thesis by simp
  next
    case (Inr a)
    show ?thesis
    proof (cases "y = x")
      case True
      with assms(2) [of s] Inr show ?thesis by simp
    next
      case False
      with Cons.prems have "x \<in> set ys" by simp
      from Cons.IH [OF this, of a] Inr show ?thesis by simp
    qed
  qed
qed

lemma fold_err_simulation:
  assumes "fold_err f xs s = Inr s'" and "fold_err g xs t = Inr t'" and "Q s t"
    and "\<And>x a b a' b'. x \<in> set xs \<Longrightarrow> Q a b \<Longrightarrow> f x a = Inr a' \<Longrightarrow> g x b = Inr b' \<Longrightarrow> Q a' b'"
  shows "Q s' t'"
  using assms
proof (induction xs arbitrary: s t)
  case Nil
  then show ?case by simp
next
  case (Cons x xs)
  from Cons.prems(1) obtain a where a: "f x s = Inr a" and ra: "fold_err f xs a = Inr s'"
    by (auto split: sum.splits)
  from Cons.prems(2) obtain b where b: "g x t = Inr b" and rb: "fold_err g xs b = Inr t'"
    by (auto split: sum.splits)
  have qab: "Q a b" using Cons.prems(4) [of x s t a b] Cons.prems(3) a b by simp
  show ?case
  proof (rule Cons.IH [OF ra rb qab])
    fix y a0 b0 a1 b1
    assume "y \<in> set xs" "Q a0 b0" "f y a0 = Inr a1" "g y b0 = Inr b1"
    then show "Q a1 b1" using Cons.prems(4) [of y a0 b0 a1 b1] by simp
  qed
qed

subsection \<open>Ordered dictionaries\<close>

lemma append_at_keys: "append_at d k x = Inr d' \<Longrightarrow> map fst d' = map fst d"
  by (auto simp: append_at_def comp_def case_prod_beta split: option.splits)

lemma map_of_setitem: "map_of (setitem d k v) k' = (if k' = k then Some v else map_of d k')"
  by (induction d k v rule: setitem.induct) auto

lemma keys_setitem:
  "map fst (setitem d k v) = (if k \<in> set (map fst d) then map fst d else map fst d @ [k])"
  by (induction d k v rule: setitem.induct) auto

lemma map_of_update_dict_other:
  "k \<notin> fst ` set other \<Longrightarrow> map_of (update_dict d other) k = map_of d k"
  unfolding update_dict_def
  by (induction other arbitrary: d) (auto simp: map_of_setitem)

lemma map_of_update_dict_new:
  "distinct (map fst other) \<Longrightarrow> k \<in> fst ` set other
    \<Longrightarrow> map_of (update_dict d other) k = map_of other k"
  unfolding update_dict_def
proof (induction other arbitrary: d)
  case Nil
  then show ?case by simp
next
  case (Cons p other)
  obtain k' v where p: "p = (k', v)" by (cases p)
  show ?case
  proof (cases "k = k'")
    case True
    with Cons.prems p have "k \<notin> fst ` set other" by auto
    from map_of_update_dict_other [OF this, of "setitem d k' v"] True p
    show ?thesis by (simp add: update_dict_def map_of_setitem)
  next
    case False
    with Cons.prems p have "k \<in> fst ` set other" "distinct (map fst other)" by auto
    from Cons.IH [OF this(2,1)] False p show ?thesis by simp
  qed
qed

lemma keys_update_dict:
  "distinct (map fst other) \<Longrightarrow> set (map fst other) \<inter> set (map fst d) = {}
    \<Longrightarrow> map fst (update_dict d other) = map fst d @ map fst other"
  unfolding update_dict_def
proof (induction other arbitrary: d)
  case Nil
  then show ?case by simp
next
  case (Cons p other)
  obtain k v where p: "p = (k, v)" by (cases p)
  from Cons.prems p have k: "k \<notin> set (map fst d)" by auto
  then have keys: "map fst (setitem d k v) = map fst d @ [k]" by (simp add: keys_setitem)
  from Cons.prems p have "distinct (map fst other)"
    "set (map fst other) \<inter> set (map fst (setitem d k v)) = {}"
    by (auto simp: keys)
  from Cons.IH [OF this] p keys show ?case by simp
qed

subsection \<open>The buckets of the flat builder\<close>

lemma file_call_keys: "file_call it ki call st = Inr st' \<Longrightarrow> flat_keys st \<Longrightarrow> flat_keys st'"
  by (auto simp: file_call_def flat_keys_def dest: append_at_keys split: if_splits option.splits sum.splits)

lemma flat_split_kernel_keys:
  "flat_split_kernel ext self c sk st = Inr st' \<Longrightarrow> flat_keys st \<Longrightarrow> flat_keys st'"
  unfolding flat_split_kernel_def Let_def
  by (auto split: sum.splits kernel_body.splits dest!: file_call_keys simp: flat_keys_def)

lemma flat_context_kernel_keys:
  assumes "flat_context_kernel ext self c st = Inr st'" and "flat_keys st"
  shows "flat_keys st'"
proof -
  from assms(1) obtain st1 where
    st1: "fold_err (flat_split_kernel ext self c) (tsfc_kernels c) st1 = Inr st'"
    and k: "s_assembly_calls st1 = s_assembly_calls st" "s_subdomain_calls st1 = s_subdomain_calls st"
    by (auto simp: flat_context_kernel_def split: if_splits sum.splits option.splits)
  from k assms(2) have "flat_keys st1" by (simp add: flat_keys_def)
  from fold_err_invariant [OF st1, of flat_keys, OF this] flat_split_kernel_keys
  show ?thesis by blast
qed

lemma flat_loop_keys:
  assumes "flat_loop ext self cks st = Inr st'" and "flat_keys st"
  shows "flat_keys st'"
  using fold_err_invariant [OF assms(1) [unfolded flat_loop_def], of flat_keys, OF assms(2)]
    flat_context_kernel_keys by blast

lemma flat_keys_init: "flat_keys setup_init"
  by (simp add: flat_keys_def setup_init_def comp_def)

lemma supported_disjoint:
  "set supported_subdomain_types \<inter> set supported_integral_types = {}"
  by (simp add: supported_subdomain_types_def supported_integral_types_def)

lemma supported_subdomain_distinct: "distinct supported_subdomain_types"
  by (simp add: supported_subdomain_types_def)

text \<open>
  Claim C5. When call assembly of the flat builder completes, the keys of the bucket map
  are the supported iteration-domain kinds followed by the subdomain kinds. Every
  iteration-domain kind has a bucket (possibly empty), and it is the bucket the loop
  filled: merging the subdomain buckets does not touch it. The subdomain buckets are
  filed under their own keys, none of which is an iteration-domain kind.
\<close>

theorem bucket_map_complete:
  assumes "LocalKernelBuilder_setup ext self = Inr b"
  shows "\<exists>cks st. context_kernels ext True self = Inr cks
      \<and> flat_loop ext self cks setup_init = Inr st
      \<and> map fst (assembly_calls b) = supported_integral_types @ supported_subdomain_types
      \<and> (\<forall>it \<in> set supported_integral_types.
            map_of (assembly_calls b) it = map_of (s_assembly_calls st) it
            \<and> map_of (assembly_calls b) it \<noteq> None)
      \<and> (\<forall>sd \<in> set supported_subdomain_types.
            map_of (assembly_calls b) sd = map_of (s_subdomain_calls st) sd
            \<and> sd \<notin> set supported_integral_types)"
proof -
  from assms obtain cks st where cks: "context_kernels ext True self = Inr cks"
    and st: "flat_loop ext self cks setup_init = Inr st"
    and b: "b = flat_finish ext self st"
    by (auto simp: LocalKernelBuilder_setup_def split: sum.splits)
  have keys: "flat_keys st" using flat_loop_keys [OF st flat_keys_init] .
  then have ka: "map fst (s_assembly_calls st) = supported_integral_types"
    and ks: "map fst (s_subdomain_calls st) = supported_subdomain_types"
    by (simp_all add: flat_keys_def)
  have calls: "assembly_calls b = update_dict (s_assembly_calls st) (s_subdomain_calls st)"
    by (simp add: b flat_finish_def)
  have 1: "map fst (assembly_calls b) = supported_integral_types @ supported_subdomain_types"
    unfolding calls using keys_update_dict [of "s_subdomain_calls st" "s_assembly_calls st"]
      supported_disjoint supported_subdomain_distinct by (simp add: ka ks)
  have 2: "map_of (assembly_calls b) it = map_of (s_assembly_calls st) it
      \<and> map_of (assembly_calls b) it \<noteq> None" if "it \<in> set supported_integral_types" for it
  proof -
    from that supported_disjoint have "it \<notin> set (map fst (s_subdomain_calls st))"
      unfolding ks by blast
    then have "map_of (assembly_calls b) it = map_of (s_assembly_calls st) it"
      unfolding calls by (simp add: map_of_update_dict_other)
    moreover from that have "it \<in> fst ` set (s_assembly_calls st)"
      using ka by (metis set_map)
    then have "map_of (s_assembly_calls st) it \<noteq> None"
      by (simp add: map_of_eq_None_iff)
    ultimately show ?thesis by simp
  qed
  have 3: "map_of (assembly_calls b) sd = map_of (s_subdomain_calls st) sd
      \<and> sd \<notin> set supported_integral_types" if "sd \<in> set supported_subdomain_types" for sd
  proof -
    from that have "sd \<in> fst ` set (s_subdomain_calls st)" using ks by (metis set_map)
    moreover have "distinct (map fst (s_subdomain_calls st))"
      unfolding ks by (rule supported_subdomain_distinct)
    ultimately have "map_of (assembly_calls b) sd = map_of (s_subdomain_calls st) sd"
      unfolding calls by (simp add: map_of_update_dict_new)
    with that supported_disjoint show ?thesis by blast
  qed
  from cks st 1 2 3 show ?thesis by blast
qed


subsection \<open>Unsupported configurations\<close>

lemma flat_loop_append:
  "flat_loop ext self (pre @ post) st =
     (case flat_loop ext self pre st of Inl e \<Rightarrow> Inl e | Inr st' \<Rightarrow> flat_loop ext self post st')"
  by (simp add: flat_loop_def fold_err_append split: sum.splits)

lemma loopy_loop_append:
  "loopy_loop self gld (pre @ post) st =
     (case loopy_loop self gld pre st of Inl e \<Rightarrow> Inl e | Inr st' \<Rightarrow> loopy_loop self gld post st')"
  by (simp add: loopy_loop_def fold_err_append split: sum.splits)

lemma flat_unsupported:
  "original_integral_type c \<notin> set supported_integral_types
    \<Longrightarrow> flat_context_kernel ext self c st = Inl (not_recognized (original_integral_type c))"
  by (simp add: flat_context_kernel_def)

lemma loopy_unsupported:
  "original_integral_type c \<notin> set supported_integral_types
    \<Longrightarrow> \<exists>e. loopy_context_kernel self gld c st = Inl e"
  by (simp add: loopy_context_kernel_def split: sum.splits)

lemma loopy_unsupported_known:
  "original_integral_type c \<notin> set supported_integral_types
    \<Longrightarrow> tensor c \<in> fst ` set (temps self)
    \<Longrightarrow> loopy_context_kernel self gld c st = Inl (not_recognized (original_integral_type c))"
  by (auto simp: loopy_context_kernel_def getitem_def map_of_eq_None_iff
      split: sum.splits option.splits)

text \<open>
  Claim C6. Let a context kernel have an originating iteration-domain kind outside the
  supported set. When the loop reaches it (the context kernels before it were assembled),
  call assembly raises the \<^verbatim>\<open>ValueError\<close> that names the kind, in the flat builder and, the
  kernel's terminal being one of the builder's temporaries, in the structured-loop
  builder. Wherever the kernel stands among the context kernels, neither builder
  completes call assembly.
\<close>

theorem unsupported_kind_raises:
  assumes "original_integral_type c \<notin> set supported_integral_types"
  shows "(context_kernels ext True self = Inr (pre @ c # post)
            \<and> flat_loop ext self pre setup_init = Inr st
          \<longrightarrow> LocalKernelBuilder_setup ext self
                = Inl (not_recognized (original_integral_type c)))
    \<and> (context_kernels ext False self = Inr (pre @ c # post)
            \<and> loopy_loop self gld pre loopy_init = Inr st'
            \<and> tensor c \<in> fst ` set (temps self)
          \<longrightarrow> LocalLoopyKernelBuilder_setup ext self gld
                = Inl (not_recognized (original_integral_type c)))
    \<and> (context_kernels ext True self = Inr cks \<and> c \<in> set cks
          \<longrightarrow> isl (LocalKernelBuilder_setup ext self))
    \<and> (context_kernels ext False self = Inr cks \<and> c \<in> set cks
          \<longrightarrow> isl (LocalLoopyKernelBuilder_setup ext self gld))"
proof (intro conjI impI)
  assume "context_kernels ext True self = Inr (pre @ c # post)
    \<and> flat_loop ext self pre setup_init = Inr st"
  then show "LocalKernelBuilder_setup ext self = Inl (not_recognized (original_integral_type c))"
    using flat_unsupported [OF assms, of ext self st]
    by (simp add: LocalKernelBuilder_setup_def flat_loop_append) (simp add: flat_loop_def)
next
  assume "context_kernels ext False self = Inr (pre @ c # post)
    \<and> loopy_loop self gld pre loopy_init = Inr st' \<and> tensor c \<in> fst ` set (temps self)"
  then show "LocalLoopyKernelBuilder_setup ext self gld
      = Inl (not_recognized (original_integral_type c))"
    using loopy_unsupported_known [OF assms, of self gld st']
    by (simp add: LocalLoopyKernelBuilder_setup_def loopy_loop_append) (simp add: loopy_loop_def)
next
  assume a: "context_kernels ext True self = Inr cks \<and> c \<in> set cks"
  have "\<exists>e. fold_err (flat_context_kernel ext self) cks setup_init = Inl e"
    using a flat_unsupported [OF assms] by (intro fold_err_fails [of c]) auto
  with a show "isl (LocalKernelBuilder_setup ext self)"
    by (auto simp: LocalKernelBuilder_setup_def flat_loop_def)
next
  assume a: "context_kernels ext False self = Inr cks \<and> c \<in> set cks"
  have "\<exists>e. fold_err (loopy_context_kernel self gld) cks loopy_init = Inl e"
    using a loopy_unsupported [OF assms] by (intro fold_err_fails [of c]) auto
  with a show "isl (LocalLoopyKernelBuilder_setup ext self gld)"
    by (auto simp: LocalLoopyKernelBuilder_setup_def loopy_loop_def)
qed

lemma loopy_inner_mixed:
  "is_mixed (tensor c)
    \<Longrightarrow> loopy_inner self gld c temp inner st = Inl (ValueError ''For now only non mixed supported'')"
  by (simp add: loopy_inner_def)

lemma loopy_context_kernel_mixed_fails:
  assumes "is_mixed (tensor c)" and "tsfc_kernels c \<noteq> []"
  shows "\<exists>e. loopy_context_kernel self gld c st = Inl e"
proof -
  from assms(2) obtain k ks where ks: "tsfc_kernels c = k # ks" by (cases "tsfc_kernels c") auto
  show ?thesis
    by (simp add: loopy_context_kernel_def ks loopy_inner_mixed [OF assms(1)]
        split: sum.splits option.splits)
qed

lemma loopy_context_kernel_mixed:
  assumes "is_mixed (tensor c)" and "tsfc_kernels c \<noteq> []"
    and "original_integral_type c \<in> set supported_integral_types"
    and "getitem (temps self) (tensor c) = Inr temp"
    and "l_coords st = None \<or> l_coords st = Some (coordinates (ufl_domain (tensor c)))"
  shows "loopy_context_kernel self gld c st = Inl (ValueError ''For now only non mixed supported'')"
proof -
  from assms(2) obtain k ks where ks: "tsfc_kernels c = k # ks" by (cases "tsfc_kernels c") auto
  from assms(3,4,5) show ?thesis
    by (auto simp: loopy_context_kernel_def ks loopy_inner_mixed [OF assms(1)])
qed

text \<open>
  Claim C9. For a context kernel whose terminal has a mixed output, the structured-loop
  builder raises \<^verbatim>\<open>ValueError("For now only non mixed supported")\<close> at every
  sub-kernel, whatever the state, before it files a call. So call assembly fails with
  this error when the loop reaches such a kernel that has a sub-kernel, a supported kind,
  a temporary and the coordinates seen so far; and wherever such a kernel with a
  sub-kernel stands among the context kernels, call assembly does not complete.
\<close>

theorem mixed_output_fails_fast:
  assumes "is_mixed (tensor c)"
  shows "loopy_inner self gld c temp inner st0
           = Inl (ValueError ''For now only non mixed supported'')
    \<and> (tsfc_kernels c \<noteq> [] \<and> original_integral_type c \<in> set supported_integral_types
         \<and> getitem (temps self) (tensor c) = Inr temp
         \<and> context_kernels ext False self = Inr (pre @ c # post)
         \<and> loopy_loop self gld pre loopy_init = Inr st
         \<and> (l_coords st = None \<or> l_coords st = Some (coordinates (ufl_domain (tensor c))))
       \<longrightarrow> LocalLoopyKernelBuilder_setup ext self gld
             = Inl (ValueError ''For now only non mixed supported''))
    \<and> (tsfc_kernels c \<noteq> [] \<and> context_kernels ext False self = Inr cks \<and> c \<in> set cks
       \<longrightarrow> isl (LocalLoopyKernelBuilder_setup ext self gld))"
proof (intro conjI impI)
  show "loopy_inner self gld c temp inner st0 = Inl (ValueError ''For now only non mixed supported'')"
    by (rule loopy_inner_mixed [OF assms])
next
  assume a: "tsfc_kernels c \<noteq> [] \<and> original_integral_type c \<in> set supported_integral_types
         \<and> getitem (temps self) (tensor c) = Inr temp
         \<and> context_kernels ext False self = Inr (pre @ c # post)
         \<and> loopy_loop self gld pre loopy_init = Inr st
         \<and> (l_coords st = None \<or> l_coords st = Some (coordinates (ufl_domain (tensor c))))"
  then have "loopy_context_kernel self gld c st = Inl (ValueError ''For now only non mixed supported'')"
    using loopy_context_kernel_mixed [OF assms, of self temp st gld] by blast
  with a show "LocalLoopyKernelBuilder_setup ext self gld
      = Inl (ValueError ''For now only non mixed supported'')"
    by (simp add: LocalLoopyKernelBuilder_setup_def loopy_loop_append) (simp add: loopy_loop_def)
next
  assume a: "tsfc_kernels c \<noteq> [] \<and> context_kernels ext False self = Inr cks \<and> c \<in> set cks"
  have "\<exists>e. fold_err (loopy_context_kernel self gld) cks loopy_init = Inl e"
    using a loopy_context_kernel_mixed_fails [OF assms] by (intro fold_err_fails [of c]) auto
  with a show "isl (LocalLoopyKernelBuilder_setup ext self gld)"
    by (auto simp: LocalLoopyKernelBuilder_setup_def loopy_loop_def)
qed



subsection \<open>Traversal\<close>

lemma first_seen_set: "set (first_seen seen xs) = set xs - set seen"
  by (induction xs arbitrary: seen) auto

lemma first_seen_distinct: "distinct (first_seen seen xs)"
  by (induction xs arbitrary: seen) (auto simp: first_seen_set)

lemma first_seen_cong: "set seen = set seen' \<Longrightarrow> first_seen seen xs = first_seen seen' xs"
proof (induction xs arbitrary: seen seen')
  case Nil
  then show ?case by simp
next
  case (Cons x xs)
  have "first_seen (x # seen) xs = first_seen (x # seen') xs"
    by (rule Cons.IH) (simp add: Cons.prems)
  moreover have "first_seen seen xs = first_seen seen' xs"
    by (rule Cons.IH) (rule Cons.prems)
  ultimately show ?case using Cons.prems by simp
qed

lemma first_seen_distinct_id:
  "distinct xs \<Longrightarrow> set xs \<inter> set seen = {} \<Longrightarrow> first_seen seen xs = xs"
  by (induction xs arbitrary: seen) auto

lemma subtensors_self: "t \<in> set (subtensors t)"
  by (cases t) simp

lemma subtensors_operand: "c \<in> set (operands t) \<Longrightarrow> set (subtensors c) \<subseteq> set (subtensors t)"
  by (cases t) auto

lemma subtensors_trans: "u \<in> set (subtensors t) \<Longrightarrow> set (subtensors u) \<subseteq> set (subtensors t)"
proof (induction t rule: subtensors.induct)
  case (1 c s m d cs ops)
  show ?case
  proof (cases "u = TensorBase c s m d cs ops")
    case True
    then show ?thesis by simp
  next
    case False
    with 1(2) obtain o' where o': "o' \<in> set ops" "u \<in> set (subtensors o')" by auto
    from 1(1) [OF o'] have "set (subtensors u) \<subseteq> set (subtensors o')" .
    with o'(1) show ?thesis by auto
  qed
qed

lemma reachable_trans: "u \<in> reachable c \<Longrightarrow> c \<in> reachable t \<Longrightarrow> u \<in> reachable t"
  by (induction rule: reachable.induct) (auto intro: reachable.operand)

lemma subtensors_reachable: "u \<in> set (subtensors t) \<Longrightarrow> u \<in> reachable t"
proof (induction t rule: subtensors.induct)
  case (1 c s m d cs ops)
  show ?case
  proof (cases "u = TensorBase c s m d cs ops")
    case True
    then show ?thesis by (simp add: reachable.root)
  next
    case False
    with 1(2) obtain o' where o': "o' \<in> set ops" "u \<in> set (subtensors o')" by auto
    from 1(1) [OF o'] have "u \<in> reachable o'" .
    moreover have "o' \<in> reachable (TensorBase c s m d cs ops)"
      using o'(1) by (auto intro: reachable.operand reachable.root)
    ultimately show ?thesis by (rule reachable_trans)
  qed
qed

lemma reachable_subtensors: "u \<in> reachable t \<Longrightarrow> u \<in> set (subtensors t)"
proof (induction rule: reachable.induct)
  case root
  show ?case by (rule subtensors_self)
next
  case (operand u c)
  have "c \<in> set (subtensors c)" by (rule subtensors_self)
  with subtensors_operand [OF operand(2)] have "c \<in> set (subtensors u)" by blast
  with subtensors_trans [OF operand.IH] show ?case by blast
qed

lemma traverse_dags_set: "set (traverse_dags [e]) = reachable e"
  using subtensors_reachable reachable_subtensors
  by (auto simp: traverse_dags_def first_seen_set)

lemma traverse_dags_distinct: "distinct (traverse_dags es)"
  by (simp add: traverse_dags_def first_seen_distinct)

subsection \<open>Decimal names\<close>

lemma digit_char_inj: "a < 10 \<Longrightarrow> b < 10 \<Longrightarrow> digit_char a = digit_char b \<Longrightarrow> a = b"
proof -
  assume a: "a < 10" and b: "b < 10" and eq: "digit_char a = digit_char b"
  have d: "distinct ''0123456789''" by simp
  have l: "length ''0123456789'' = 10" by simp
  from eq have "''0123456789'' ! a = ''0123456789'' ! b" by (simp add: digit_char_def)
  with d a b l show "a = b" by (metis nth_eq_iff_index_eq)
qed

lemma string_of_nat_nonempty: "string_of_nat n \<noteq> []"
  by (subst string_of_nat.simps) simp

lemma string_of_nat_inj: "string_of_nat m = string_of_nat n \<Longrightarrow> m = n"
proof (induction m arbitrary: n rule: string_of_nat.induct)
  case (1 m)
  show ?case
  proof (cases "m < 10")
    case True
    show ?thesis
    proof (cases "n < 10")
      case n: True
      from "1.prems" True n have "digit_char m = digit_char n"
        by (simp add: string_of_nat.simps [of m] string_of_nat.simps [of n])
      with True n show ?thesis using digit_char_inj [of m n] by simp
    next
      case n: False
      from "1.prems" True n have "[digit_char m] = string_of_nat (n div 10) @ [digit_char (n mod 10)]"
        by (simp add: string_of_nat.simps [of m] string_of_nat.simps [of n])
      then have "string_of_nat (n div 10) = []" by simp
      with string_of_nat_nonempty show ?thesis by blast
    qed
  next
    case False
    show ?thesis
    proof (cases "n < 10")
      case n: True
      from "1.prems" False n have "string_of_nat (m div 10) @ [digit_char (m mod 10)] = [digit_char n]"
        by (simp add: string_of_nat.simps [of m] string_of_nat.simps [of n])
      then have "string_of_nat (m div 10) = []" by simp
      with string_of_nat_nonempty show ?thesis by blast
    next
      case n: False
      from "1.prems" False n have
        "string_of_nat (m div 10) @ [digit_char (m mod 10)]
          = string_of_nat (n div 10) @ [digit_char (n mod 10)]"
        by (simp add: string_of_nat.simps [of m] string_of_nat.simps [of n])
      then have eq: "string_of_nat (m div 10) = string_of_nat (n div 10)"
        and dg: "digit_char (m mod 10) = digit_char (n mod 10)" by simp_all
      from "1.IH" [OF False eq] have "m div 10 = n div 10" .
      moreover from dg have "m mod 10 = n mod 10"
        by (intro digit_char_inj) simp_all
      ultimately show ?thesis by (metis div_mult_mod_eq)
    qed
  qed
qed

subsection \<open>Temporaries\<close>

lemma collect_tensor_temps:
  "c_temps (collect_tensor t st) =
     (if is_Tensor t \<and> t \<notin> fst ` set (c_temps st)
      then c_temps st @ [(t, Symbol (''T'' @ string_of_nat (length (c_temps st))))]
      else c_temps st)"
  by (auto simp: collect_tensor_def is_Tensor_def setdefault_def Let_def split: slate_class.splits)

lemma collect_temps_keys:
  "map fst (c_temps (collect dag st)) =
     map fst (c_temps st) @ first_seen (map fst (c_temps st)) (filter is_Tensor dag)"
proof (induction dag arbitrary: st)
  case Nil
  then show ?case by (simp add: collect_def)
next
  case (Cons t dag)
  have step: "collect (t # dag) st = collect dag (collect_tensor t st)"
    by (simp add: collect_def)
  show ?case
  proof (cases "is_Tensor t \<and> t \<notin> fst ` set (c_temps st)")
    case True
    then have keys: "map fst (c_temps (collect_tensor t st)) = map fst (c_temps st) @ [t]"
      by (simp add: collect_tensor_temps)
    have "first_seen (map fst (c_temps st) @ [t]) (filter is_Tensor dag)
        = first_seen (t # map fst (c_temps st)) (filter is_Tensor dag)"
      by (rule first_seen_cong) auto
    with True show ?thesis unfolding step Cons.IH keys by simp
  next
    case False
    then have keys: "c_temps (collect_tensor t st) = c_temps st"
      by (simp add: collect_tensor_temps)
    from False show ?thesis unfolding step Cons.IH keys by auto
  qed
qed

lemma collect_temp_names: "temp_names (c_temps st) \<Longrightarrow> temp_names (c_temps (collect dag st))"
proof (induction dag arbitrary: st)
  case Nil
  then show ?case by (simp add: collect_def)
next
  case (Cons t dag)
  have step: "collect (t # dag) st = collect dag (collect_tensor t st)"
    by (simp add: collect_def)
  have "temp_names (c_temps (collect_tensor t st))"
    using Cons.prems by (simp add: collect_tensor_temps temp_names_def)
  then show ?case unfolding step by (rule Cons.IH)
qed

lemma temp_names_nth:
  "temp_names ts \<Longrightarrow> i < length ts \<Longrightarrow> snd (ts ! i) = Symbol (''T'' @ string_of_nat i)"
proof -
  assume a: "temp_names ts" and i: "i < length ts"
  have "snd (ts ! i) = map snd ts ! i" using i by simp
  also have "\<dots> = map (\<lambda>i. Symbol (''T'' @ string_of_nat i)) [0 ..< length ts] ! i"
    using a by (simp add: temp_names_def)
  also have "\<dots> = Symbol (''T'' @ string_of_nat i)" using i by simp
  finally show ?thesis .
qed

lemma temp_names_distinct: "temp_names ts \<Longrightarrow> distinct (map snd ts)"
  unfolding temp_names_def
  by (simp add: distinct_map inj_on_def string_of_nat_inj)

lemma base_temps:
  "map fst (temps (LocalKernelBuilder_base e p)) = filter is_Tensor (traverse_dags [e])"
proof -
  have d: "distinct (filter is_Tensor (traverse_dags [e]))"
    by (simp add: traverse_dags_distinct)
  show ?thesis
    by (simp add: LocalKernelBuilder_base_def Let_def collect_temps_keys collect_init_def
        first_seen_distinct_id [OF d])
qed

lemma base_temp_names: "temp_names (temps (LocalKernelBuilder_base e p))"
proof -
  have "temp_names (c_temps (collect (traverse_dags [e]) (collect_init e)))"
    by (rule collect_temp_names) (simp add: collect_init_def temp_names_def)
  then show ?thesis by (simp add: LocalKernelBuilder_base_def Let_def)
qed

lemma setup_keeps_base:
  assumes "LocalKernelBuilder_setup ext self = Inr b"
  shows "temps b = temps self \<and> expression_dag b = expression_dag self
    \<and> coefficient_vecs b = coefficient_vecs self \<and> expression b = expression self"
  using assms
  by (auto simp: LocalKernelBuilder_setup_def flat_finish_def split: sum.splits)

lemma new_is_setup:
  assumes "LocalKernelBuilder_new ext e p = Inr b"
  shows "LocalKernelBuilder_setup ext (LocalKernelBuilder_base e p) = Inr b"
  using assms by (simp add: LocalKernelBuilder_new_def split: if_splits)

text \<open>
  Claim C2. After the construction of a builder, the number of temporaries is the number
  of distinct \<open>Tensor\<close> nodes reachable from the expression, however often each is
  referenced. The keys of \<open>temps\<close> are exactly these nodes, each once, in the order of
  their first encounter in the traversal, and the \<open>i\<close>-th temporary is named \<^verbatim>\<open>T\<close>\<open>i\<close>, so
  that the names are distinct too.
\<close>

theorem temporaries_dedup:
  assumes "LocalKernelBuilder_new ext e p = Inr b"
  shows "length (temps b) = card {t \<in> reachable e. is_Tensor t}
    \<and> fst ` set (temps b) = {t \<in> reachable e. is_Tensor t}
    \<and> distinct (map fst (temps b)) \<and> distinct (map snd (temps b))
    \<and> map fst (temps b) = filter is_Tensor (expression_dag b)
    \<and> (\<forall>i < length (temps b). snd (temps b ! i) = Symbol (''T'' @ string_of_nat i))"
proof -
  let ?self = "LocalKernelBuilder_base e p"
  from setup_keeps_base [OF new_is_setup [OF assms]]
  have t: "temps b = temps ?self" and dag: "expression_dag b = expression_dag ?self" by simp_all
  have dag': "expression_dag ?self = traverse_dags [e]"
    by (simp add: LocalKernelBuilder_base_def Let_def)
  have keys: "map fst (temps b) = filter is_Tensor (traverse_dags [e])"
    by (simp add: t base_temps)
  have names: "temp_names (temps b)" by (simp add: t base_temp_names)
  have dist: "distinct (map fst (temps b))" by (simp add: keys traverse_dags_distinct)
  have "set (map fst (temps b)) = {t \<in> reachable e. is_Tensor t}"
    unfolding keys by (auto simp: traverse_dags_set)
  then have s: "fst ` set (temps b) = {t \<in> reachable e. is_Tensor t}" by simp
  from distinct_card [OF dist] have "card (fst ` set (temps b)) = length (temps b)" by simp
  then have len: "length (temps b) = card {t \<in> reachable e. is_Tensor t}" using s by simp
  from len s dist temp_names_distinct [OF names] keys temp_names_nth [OF names]
  show ?thesis by (simp add: dag dag')
qed



subsection \<open>Coefficient packing\<close>

lemma packing_records_setdefault_append:
  "mset (packing_records (setdefault_append cv s ci)) = mset (packing_records cv) + {#(s, ci)#}"
  by (induction cv s ci rule: setdefault_append.induct) (auto simp: packing_records_def)

lemma packing_records_fold:
  "mset (packing_records (fold (\<lambda>(s, cinfo) cv. setdefault_append cv s cinfo) rs cv))
     = mset (packing_records cv) + mset rs"
  by (induction rs arbitrary: cv) (auto simp: packing_records_setdefault_append)

lemma packing_records_pack:
  "mset (packing_records (pack_coefficient vec lt shapes cv))
     = mset (packing_records cv) + mset (coefficient_infos vec lt (sum_list shapes) 0 0 shapes)"
  by (simp add: pack_coefficient_def packing_records_fold)

lemma coefficient_infos_owner:
  "(s, r) \<in> set (coefficient_infos vec lt tot i off shapes) \<Longrightarrow> vector r = vec \<and> local_temp r = lt"
  by (induction shapes arbitrary: i off) auto

lemma coefficient_infos_length: "length (coefficient_infos vec lt tot i off shapes) = length shapes"
  by (induction shapes arbitrary: i off) auto

lemma coefficient_infos_nth:
  "k < length shapes \<Longrightarrow>
     coefficient_infos vec lt tot i off shapes ! k =
       (shapes ! k, \<lparr>space_index = i + k, offset_index = off + sum_list (take k shapes),
                     cshape = [tot], vector = vec, local_temp = lt\<rparr>)"
proof (induction shapes arbitrary: i off k)
  case Nil
  then show ?case by simp
next
  case (Cons s shapes)
  show ?case
  proof (cases k)
    case 0
    then show ?thesis by simp
  next
    case (Suc k')
    with Cons.prems have "k' < length shapes" by simp
    from Cons.IH [OF this, of "Suc i" "off + s"] Suc show ?thesis by simp
  qed
qed

lemma records_of_mset:
  "mset (records_of f cv) =
     filter_mset (\<lambda>(s, r). cls (vector r) = AssembledVector f) (mset (packing_records cv))"
  by (simp add: records_of_def)

lemma filter_infos_same:
  "cls vec = AssembledVector f \<Longrightarrow>
     filter (\<lambda>(s, r). cls (vector r) = AssembledVector f) (coefficient_infos vec lt tot i off shapes)
       = coefficient_infos vec lt tot i off shapes"
  by (rule filter_True) (auto dest: coefficient_infos_owner)

lemma filter_infos_other:
  "cls vec \<noteq> AssembledVector f \<Longrightarrow>
     filter (\<lambda>(s, r). cls (vector r) = AssembledVector f) (coefficient_infos vec lt tot i off shapes)
       = []"
  by (rule filter_False) (auto dest: coefficient_infos_owner)

lemma collect_tensor_other:
  assumes "cls t \<noteq> AssembledVector f \<or> f \<in> c_seen_coeff st"
  shows "mset (records_of f (c_coeff_vecs (collect_tensor t st)))
           = mset (records_of f (c_coeff_vecs st))
    \<and> (f \<in> c_seen_coeff (collect_tensor t st) \<longleftrightarrow> f \<in> c_seen_coeff st)"
proof (cases "cls t")
  case (AssembledVector g)
  show ?thesis
  proof (cases "g \<in> c_seen_coeff st")
    case True
    with AssembledVector show ?thesis by (simp add: collect_tensor_def Let_def)
  next
    case False
    with assms AssembledVector have ne: "g \<noteq> f" by auto
    then have "cls t \<noteq> AssembledVector f" using AssembledVector by simp
    from filter_infos_other [OF this] False AssembledVector ne show ?thesis
      by (auto simp: collect_tensor_def Let_def records_of_mset packing_records_pack
          simp flip: mset_filter)
  qed
qed (simp_all add: collect_tensor_def Let_def)

lemma collect_tensor_first:
  assumes "cls t = AssembledVector f" and "f \<notin> c_seen_coeff st"
  shows "mset (records_of f (c_coeff_vecs (collect_tensor t st)))
           = mset (records_of f (c_coeff_vecs st))
             + mset (coefficient_infos t
                       (Symbol (''VecTemp'' @ string_of_nat (card (c_seen_coeff st))))
                       (sum_list (shapes_of f)) 0 0 (shapes_of f))
    \<and> f \<in> c_seen_coeff (collect_tensor t st)"
  using assms filter_infos_same [OF assms(1)]
  by (auto simp: collect_tensor_def Let_def records_of_mset packing_records_pack
      simp flip: mset_filter)

lemma collect_Cons: "collect (t # dag) st = collect dag (collect_tensor t st)"
  by (simp add: collect_def)

lemma collect_append: "collect (pre @ post) st = collect post (collect pre st)"
  by (simp add: collect_def)

lemma collect_seen_stays:
  "f \<in> c_seen_coeff st \<Longrightarrow>
     mset (records_of f (c_coeff_vecs (collect dag st))) = mset (records_of f (c_coeff_vecs st))"
proof (induction dag arbitrary: st)
  case Nil
  then show ?case by (simp add: collect_def)
next
  case (Cons t dag)
  from collect_tensor_other [of t f st] Cons.prems
  have 1: "mset (records_of f (c_coeff_vecs (collect_tensor t st)))
      = mset (records_of f (c_coeff_vecs st))"
    and 2: "f \<in> c_seen_coeff (collect_tensor t st)" by simp_all
  from Cons.IH [OF 2] 1 show ?case by (simp add: collect_Cons)
qed

lemma collect_unreferenced:
  "\<forall>u \<in> set pre. cls u \<noteq> AssembledVector f \<Longrightarrow>
     mset (records_of f (c_coeff_vecs (collect pre st))) = mset (records_of f (c_coeff_vecs st))
     \<and> (f \<in> c_seen_coeff (collect pre st) \<longleftrightarrow> f \<in> c_seen_coeff st)"
proof (induction pre arbitrary: st)
  case Nil
  then show ?case by (simp add: collect_def)
next
  case (Cons t pre)
  from Cons.prems have "cls t \<noteq> AssembledVector f" by simp
  with collect_tensor_other [of t f st]
  have 1: "mset (records_of f (c_coeff_vecs (collect_tensor t st)))
      = mset (records_of f (c_coeff_vecs st))"
    and 2: "f \<in> c_seen_coeff (collect_tensor t st) \<longleftrightarrow> f \<in> c_seen_coeff st" by simp_all
  from Cons.prems have "\<forall>u \<in> set pre. cls u \<noteq> AssembledVector f" by simp
  from Cons.IH [OF this, of "collect_tensor t st"] 1 2 show ?case by (simp add: collect_Cons)
qed

lemma collect_tensor_seen:
  "c_seen_coeff (collect_tensor t st) =
     c_seen_coeff st \<union> {g. cls t = AssembledVector g}"
  by (cases "cls t") (auto simp: collect_tensor_def Let_def)

lemma collect_seen:
  "c_seen_coeff (collect pre st) =
     c_seen_coeff st \<union> {g. \<exists>u \<in> set pre. cls u = AssembledVector g}"
  by (induction pre arbitrary: st) (auto simp: collect_Cons collect_tensor_seen collect_def)

lemma collect_first_reference:
  assumes "\<forall>u \<in> set pre. cls u \<noteq> AssembledVector f" and "cls t0 = AssembledVector f"
    and "f \<notin> c_seen_coeff st"
  shows "mset (records_of f (c_coeff_vecs (collect (pre @ t0 # post) st)))
           = mset (records_of f (c_coeff_vecs st))
             + mset (coefficient_infos t0
                       (Symbol (''VecTemp'' @ string_of_nat (card (c_seen_coeff (collect pre st)))))
                       (sum_list (shapes_of f)) 0 0 (shapes_of f))"
proof -
  let ?s1 = "collect pre st"
  from collect_unreferenced [OF assms(1), of st] assms(3)
  have r1: "mset (records_of f (c_coeff_vecs ?s1)) = mset (records_of f (c_coeff_vecs st))"
    and n1: "f \<notin> c_seen_coeff ?s1" by simp_all
  from collect_tensor_first [OF assms(2) n1]
  have r2: "mset (records_of f (c_coeff_vecs (collect_tensor t0 ?s1)))
      = mset (records_of f (c_coeff_vecs ?s1))
        + mset (coefficient_infos t0
                  (Symbol (''VecTemp'' @ string_of_nat (card (c_seen_coeff ?s1))))
                  (sum_list (shapes_of f)) 0 0 (shapes_of f))"
    and s2: "f \<in> c_seen_coeff (collect_tensor t0 ?s1)" by simp_all
  have "collect (pre @ t0 # post) st = collect post (collect_tensor t0 ?s1)"
    by (simp add: collect_append collect_Cons)
  with collect_seen_stays [OF s2, of post] r2 r1 show ?thesis by simp
qed

lemma first_reference:
  assumes "t \<in> set dag" and "cls t = AssembledVector f"
  shows "\<exists>pre t0 post. dag = pre @ t0 # post \<and> cls t0 = AssembledVector f
    \<and> (\<forall>u \<in> set pre. cls u \<noteq> AssembledVector f)"
  using split_list_first_prop [of dag "\<lambda>u. cls u = AssembledVector f"] assms by blast

lemma base_packing:
  assumes "traverse_dags [e] = pre @ t0 # post" and "cls t0 = AssembledVector f"
    and "\<forall>u \<in> set pre. cls u \<noteq> AssembledVector f"
  shows "mset (records_of f (coefficient_vecs (LocalKernelBuilder_base e p)))
     = mset (coefficient_infos t0
         (Symbol (''VecTemp'' @ string_of_nat (card {g. \<exists>u \<in> set pre. cls u = AssembledVector g})))
         (sum_list (shapes_of f)) 0 0 (shapes_of f))"
proof -
  have n: "f \<notin> c_seen_coeff (collect_init e)" by (simp add: collect_init_def)
  have s: "c_seen_coeff (collect pre (collect_init e))
      = {g. \<exists>u \<in> set pre. cls u = AssembledVector g}"
    by (simp add: collect_seen collect_init_def)
  have r: "records_of f (c_coeff_vecs (collect_init e)) = []"
    by (simp add: records_of_def packing_records_def collect_init_def)
  from collect_first_reference [OF assms(3,2) n, of post] show ?thesis
    by (simp add: LocalKernelBuilder_base_def Let_def assms(1) s r)
qed

lemma new_packing:
  assumes "LocalKernelBuilder_new ext e p = Inr b"
    and "t \<in> set (expression_dag b)" and "cls t = AssembledVector f"
  shows "\<exists>pre t0 post. expression_dag b = pre @ t0 # post \<and> cls t0 = AssembledVector f
    \<and> (\<forall>u \<in> set pre. cls u \<noteq> AssembledVector f)
    \<and> mset (records_of f (coefficient_vecs b))
        = mset (coefficient_infos t0
            (Symbol (''VecTemp'' @ string_of_nat
               (card {g. \<exists>u \<in> set pre. cls u = AssembledVector g})))
            (sum_list (shapes_of f)) 0 0 (shapes_of f))"
proof -
  let ?self = "LocalKernelBuilder_base e p"
  from setup_keeps_base [OF new_is_setup [OF assms(1)]]
  have cv: "coefficient_vecs b = coefficient_vecs ?self"
    and dag: "expression_dag b = expression_dag ?self" by simp_all
  have dag': "expression_dag b = traverse_dags [e]"
    by (simp add: dag LocalKernelBuilder_base_def Let_def)
  from first_reference [OF assms(2,3)] obtain pre t0 post where
    split: "expression_dag b = pre @ t0 # post" and t0: "cls t0 = AssembledVector f"
    and pre: "\<forall>u \<in> set pre. cls u \<noteq> AssembledVector f" by blast
  from base_packing [OF split [unfolded dag'] t0 pre, of p]
  have m: "mset (records_of f (coefficient_vecs b))
      = mset (coefficient_infos t0
            (Symbol (''VecTemp'' @ string_of_nat
               (card {g. \<exists>u \<in> set pre. cls u = AssembledVector g})))
            (sum_list (shapes_of f)) 0 0 (shapes_of f))" by (simp add: cv)
  show ?thesis
    apply (rule exI [of _ pre])
    apply (rule exI [of _ t0])
    apply (rule exI [of _ post])
    using split t0 pre m apply simp
    done
qed


lemma take_sum_Suc:
  "k < length xs \<Longrightarrow> sum_list (take (Suc k) xs) = sum_list (take k xs) + (xs ! k :: nat)"
  by (simp add: take_Suc_conv_app_nth)

lemma prefix_sums_strict:
  "\<forall>s \<in> set xs. 0 < s \<Longrightarrow> i < j \<Longrightarrow> j \<le> length xs
    \<Longrightarrow> sum_list (take i xs) < sum_list (take j (xs :: nat list))"
proof (induction j)
  case 0
  then show ?case by simp
next
  case (Suc j)
  from Suc.prems have j: "j < length xs" by simp
  then have "xs ! j \<in> set xs" by simp
  with Suc.prems(1) have pos: "0 < xs ! j" by blast
  have le: "sum_list (take i xs) \<le> sum_list (take j xs)"
  proof (cases "i = j")
    case True
    then show ?thesis by simp
  next
    case False
    with Suc.prems have "i < j" by simp
    from Suc.IH [OF Suc.prems(1) this] j show ?thesis by simp
  qed
  with pos show ?case by (simp add: take_sum_Suc [OF j])
qed

text \<open>
  Claim C4. The packing records of a coefficient \<open>f\<close> referenced in the graph, in the
  order of their sub-space index: the \<open>i\<close>-th has sub-space index \<open>i\<close>, is filed under the
  size of the \<open>i\<close>-th sub-block and starts at the sum of the sizes before it; the first
  offset is zero, each block ends where the next begins (no overlap, no gap), and the last
  offset plus the last block size is the total packed length, which every record carries
  as its shape. When every sub-block has at least one degree of freedom, the offsets
  are strictly increasing.
\<close>

theorem packing_offsets:
  assumes "LocalKernelBuilder_new ext e p = Inr b"
    and "t \<in> set (expression_dag b)" and "cls t = AssembledVector f"
  shows "\<exists>rs. mset rs = mset (records_of f (coefficient_vecs b))
    \<and> length rs = length (shapes_of f)
    \<and> (\<forall>i < length rs.
          fst (rs ! i) = shapes_of f ! i \<and> space_index (snd (rs ! i)) = i
          \<and> offset_index (snd (rs ! i)) = sum_list (take i (shapes_of f))
          \<and> cshape (snd (rs ! i)) = [sum_list (shapes_of f)])
    \<and> (rs \<noteq> [] \<longrightarrow> offset_index (snd (hd rs)) = 0
          \<and> offset_index (snd (last rs)) + fst (last rs) = sum_list (shapes_of f))
    \<and> (\<forall>i. Suc i < length rs \<longrightarrow>
          offset_index (snd (rs ! i)) + fst (rs ! i) = offset_index (snd (rs ! Suc i)))
    \<and> ((\<forall>s \<in> set (shapes_of f). 0 < s) \<longrightarrow>
         (\<forall>i j. i < j \<and> j < length rs \<longrightarrow>
            offset_index (snd (rs ! i)) < offset_index (snd (rs ! j))))"
proof -
  from new_packing [OF assms] obtain pre t0 post where
    m: "mset (records_of f (coefficient_vecs b))
      = mset (coefficient_infos t0
            (Symbol (''VecTemp'' @ string_of_nat
               (card {g. \<exists>u \<in> set pre. cls u = AssembledVector g})))
            (sum_list (shapes_of f)) 0 0 (shapes_of f))" by blast
  let ?xs = "shapes_of f"
  let ?lt = "Symbol (''VecTemp'' @ string_of_nat
               (card {g. \<exists>u \<in> set pre. cls u = AssembledVector g}))"
  let ?rs = "coefficient_infos t0 ?lt (sum_list ?xs) 0 0 ?xs"
  have len: "length ?rs = length ?xs" by (rule coefficient_infos_length)
  have nth: "?rs ! i = (?xs ! i, \<lparr>space_index = i, offset_index = sum_list (take i ?xs),
       cshape = [sum_list ?xs], vector = t0, local_temp = ?lt\<rparr>)" if "i < length ?xs" for i
    using coefficient_infos_nth [OF that, of t0 ?lt "sum_list ?xs" 0 0] by simp
  have 1: "\<forall>i < length ?rs.
          fst (?rs ! i) = ?xs ! i \<and> space_index (snd (?rs ! i)) = i
          \<and> offset_index (snd (?rs ! i)) = sum_list (take i ?xs)
          \<and> cshape (snd (?rs ! i)) = [sum_list ?xs]"
  proof (intro allI impI)
    fix i assume "i < length ?rs"
    then have i: "i < length ?xs" by (simp only: len)
    show "fst (?rs ! i) = ?xs ! i \<and> space_index (snd (?rs ! i)) = i
          \<and> offset_index (snd (?rs ! i)) = sum_list (take i ?xs)
          \<and> cshape (snd (?rs ! i)) = [sum_list ?xs]"
      by (simp only: nth [OF i]) simp
  qed
  have 2: "offset_index (snd (hd ?rs)) = 0
          \<and> offset_index (snd (last ?rs)) + fst (last ?rs) = sum_list ?xs" if ne: "?rs \<noteq> []"
  proof -
    from ne len have pos: "0 < length ?xs" by (cases ?xs) auto
    then have l: "length ?xs - 1 < length ?xs" by simp
    have h: "hd ?rs = ?rs ! 0" using ne by (simp add: hd_conv_nth)
    have la: "last ?rs = ?rs ! (length ?xs - 1)" using ne len by (simp add: last_conv_nth)
    have "sum_list (take (length ?xs - 1) ?xs) + ?xs ! (length ?xs - 1)
        = sum_list (take (Suc (length ?xs - 1)) ?xs)"
      using take_sum_Suc [OF l] by simp
    also have "\<dots> = sum_list ?xs" using pos by simp
    finally have "sum_list (take (length ?xs - 1) ?xs) + ?xs ! (length ?xs - 1) = sum_list ?xs" .
    then show ?thesis by (simp only: h la nth [OF pos] nth [OF l]) simp
  qed
  have 3: "\<forall>i. Suc i < length ?rs \<longrightarrow>
          offset_index (snd (?rs ! i)) + fst (?rs ! i) = offset_index (snd (?rs ! Suc i))"
  proof (intro allI impI)
    fix i assume "Suc i < length ?rs"
    then have i: "Suc i < length ?xs" by (simp only: len)
    then have i': "i < length ?xs" by simp
    show "offset_index (snd (?rs ! i)) + fst (?rs ! i) = offset_index (snd (?rs ! Suc i))"
      by (simp only: nth [OF i] nth [OF i']) (simp add: take_sum_Suc [OF i'])
  qed
  have 4: "\<forall>i j. i < j \<and> j < length ?rs \<longrightarrow>
            offset_index (snd (?rs ! i)) < offset_index (snd (?rs ! j))"
    if "\<forall>s \<in> set ?xs. 0 < s"
  proof (intro allI impI)
    fix i j assume "i < j \<and> j < length ?rs"
    then have ij: "i < j" and j: "j < length ?xs" by (simp_all only: len)
    then have i: "i < length ?xs" by simp
    from prefix_sums_strict [OF that ij] j
    have "sum_list (take i ?xs) < sum_list (take j ?xs)" by simp
    then show "offset_index (snd (?rs ! i)) < offset_index (snd (?rs ! j))"
      by (simp only: nth [OF i] nth [OF j]) simp
  qed
  have 0: "mset ?rs = mset (records_of f (coefficient_vecs b))" by (simp only: m)
  have imp2: "?rs \<noteq> [] \<longrightarrow> offset_index (snd (hd ?rs)) = 0
          \<and> offset_index (snd (last ?rs)) + fst (last ?rs) = sum_list ?xs"
    using 2 by (rule impI)
  have imp4: "(\<forall>s \<in> set ?xs. 0 < s) \<longrightarrow>
         (\<forall>i j. i < j \<and> j < length ?rs \<longrightarrow>
            offset_index (snd (?rs ! i)) < offset_index (snd (?rs ! j)))"
    using 4 by (rule impI)
  from conjI [OF 0 conjI [OF len conjI [OF 1 conjI [OF imp2 conjI [OF 3 imp4]]]]]
  show ?thesis by (rule exI [of _ ?rs])
qed



subsection \<open>Independence of the hash order\<close>

lemma compile_all_hash_order:
  "compile_all (ext\<lparr>hash_order := h\<rparr>) p coffee xs = compile_all ext p coffee xs"
  by (induction ext p coffee xs rule: compile_all.induct) (simp_all split: sum.splits)

lemma context_kernels_hash_order:
  "context_kernels (ext\<lparr>hash_order := h\<rparr>) coffee self = context_kernels ext coffee self"
  by (simp add: context_kernels_def compile_all_hash_order)

lemma flat_split_kernel_hash_order:
  "flat_split_kernel (ext\<lparr>hash_order := h\<rparr>) = flat_split_kernel ext"
  by (intro ext) (simp add: flat_split_kernel_def Let_def split: sum.splits kernel_body.splits)

lemma flat_loop_hash_order: "flat_loop (ext\<lparr>hash_order := h\<rparr>) = flat_loop ext"
proof -
  have "flat_context_kernel (ext\<lparr>hash_order := h\<rparr>) = flat_context_kernel ext"
    unfolding flat_context_kernel_def flat_split_kernel_hash_order by (rule refl)
  then show ?thesis by (intro ext) (simp add: flat_loop_def)
qed

lemma flat_setup_hash_order:
  "map_sum id (\<lambda>b. b\<lparr>include_dirs := []\<rparr>) (LocalKernelBuilder_setup (ext\<lparr>hash_order := h\<rparr>) self)
     = map_sum id (\<lambda>b. b\<lparr>include_dirs := []\<rparr>) (LocalKernelBuilder_setup ext self)"
  by (simp add: LocalKernelBuilder_setup_def context_kernels_hash_order flat_loop_hash_order
      flat_finish_def split: sum.splits)

lemma loopy_setup_hash_order:
  "map_sum id (\<lambda>b. b\<lparr>include_dirs := []\<rparr>)
       (LocalLoopyKernelBuilder_setup (ext\<lparr>hash_order := h\<rparr>) self gld)
     = map_sum id (\<lambda>b. b\<lparr>include_dirs := []\<rparr>) (LocalLoopyKernelBuilder_setup ext self gld)"
  by (simp add: LocalLoopyKernelBuilder_setup_def context_kernels_hash_order
      loopy_finish_def split: sum.splits option.splits prod.splits)

text \<open>
  Claim C10. A builder is a function of the expression graph, the parameters and the
  form compiler. The one thing that can differ between two runs on the same graph is the
  order in which \<^verbatim>\<open>list(set(include_dirs))\<close> enumerates a set of strings: whatever
  that order is, both lowering targets give the same outcome, with the same temporaries,
  packing records, buckets, kernel bodies and flags; only \<^verbatim>\<open>include_dirs\<close> may be
  ordered differently.
\<close>

theorem builder_outputs_deterministic:
  "map_sum id (\<lambda>b. b\<lparr>include_dirs := []\<rparr>) (LocalKernelBuilder_new (ext\<lparr>hash_order := h1\<rparr>) e p)
     = map_sum id (\<lambda>b. b\<lparr>include_dirs := []\<rparr>) (LocalKernelBuilder_new (ext\<lparr>hash_order := h2\<rparr>) e p)
   \<and> map_sum id (\<lambda>b. b\<lparr>include_dirs := []\<rparr>)
         (LocalLoopyKernelBuilder_new (ext\<lparr>hash_order := h1\<rparr>) e p)
     = map_sum id (\<lambda>b. b\<lparr>include_dirs := []\<rparr>)
         (LocalLoopyKernelBuilder_new (ext\<lparr>hash_order := h2\<rparr>) e p)"
  by (simp add: LocalKernelBuilder_new_def LocalLoopyKernelBuilder_new_def
      flat_setup_hash_order [where h = h1] flat_setup_hash_order [where h = h2]
      loopy_setup_hash_order [where h = h1] loopy_setup_hash_order [where h = h2]
      split: sum.splits)


subsection \<open>The two lowering targets\<close>

lemma setdefault_keys:
  "map fst (setdefault d k v) = (if k \<in> set (map fst d) then map fst d else map fst d @ [k])"
  by (simp add: setdefault_def)

lemma collect_tensor_loopy_keys:
  assumes "collect_tensor_loopy t sl = Inr sl'" and "map fst (c_temps sl) = map fst (c_temps sf)"
  shows "map fst (c_temps sl') = map fst (c_temps (collect_tensor t sf))"
proof (cases "is_Tensor t")
  case True
  then obtain k where k: "cls t = Tensor k" by (auto simp: is_Tensor_def split: slate_class.splits)
  from assms(1) k have
    "c_temps sl' = setdefault (c_temps sl) t
        (Indexed (''T'' @ string_of_nat (length (c_temps sl))) (shape t) [3, 3])"
    by (auto simp: collect_tensor_loopy_def Let_def split: sum.splits)
  with assms(2) True show ?thesis
    by (simp add: setdefault_keys collect_tensor_temps image_iff)
next
  case False
  with assms(1) have "c_temps sl' = c_temps sl"
    by (cases "cls t")
       (auto simp: collect_tensor_loopy_def Let_def is_Tensor_def
          split: sum.splits option.splits if_splits)
  with assms(2) False show ?thesis by (simp add: collect_tensor_temps)
qed

lemma collect_loopy_keys:
  "fold_err collect_tensor_loopy dag sl = Inr sl' \<Longrightarrow> map fst (c_temps sl) = map fst (c_temps sf)
    \<Longrightarrow> map fst (c_temps sl') = map fst (c_temps (collect dag sf))"
proof (induction dag arbitrary: sl sf)
  case Nil
  then show ?case by (simp add: collect_def)
next
  case (Cons t dag)
  from Cons.prems(1) obtain s1 where s1: "collect_tensor_loopy t sl = Inr s1"
    and rest: "fold_err collect_tensor_loopy dag s1 = Inr sl'" by (auto split: sum.splits)
  from collect_tensor_loopy_keys [OF s1 Cons.prems(2)]
  have "map fst (c_temps s1) = map fst (c_temps (collect_tensor t sf))" .
  from Cons.IH [OF rest this] show ?case by (simp add: collect_Cons)
qed

lemma callees_of_append_at:
  "append_at d k x = Inr d' \<Longrightarrow>
     callees_of d' = map (\<lambda>(k', ns). if k' = k then (k', ns @ [entry_callee x]) else (k', ns))
                       (callees_of d)"
  by (auto simp: append_at_def callees_of_def split: option.splits)

lemma map_of_callees_of: "map_of (callees_of d) k = bucket_callees d k"
  by (induction d) (auto simp: callees_of_def bucket_callees_def)

lemma inner_agree:
  assumes "loopy_inner self' gld c temp inner sl = Inr sl'"
    and "flat_split_kernel ext self c inner sf = Inr sf'"
    and "loops_agree sl sf"
  shows "loops_agree sl' sf'"
proof -
  let ?ki = "kinfo inner"
  from assms(1) obtain ga lcs kd3 rs idxs ac where
    cell: "original_integral_type c = ''cell''" and sd: "kinfo_subdomain_id ?ki = Otherwise"
    and ac: "append_at (l_assembly_calls sl) ''cell''
        (Filed (CallInstruction
           [SubArrayRef [Variable (Name ''i''), Variable (Name ''i0'')]
              (Subscript (Variable (arg_name ga))
                 [Variable (Name ''i''), Variable (Name ''i0'')])]
           (Call (Variable (Name (kernel_name (kinfo_kernel ?ki)))) rs)
           None True ''inner_call'')) = Inr ac"
    and sl': "l_assembly_calls sl' = ac"
      "l_needs_cell_sizes sl' = (l_needs_cell_sizes sl \<or> kinfo_needs_cell_sizes ?ki)"
      "l_needs_cell_orientations sl' = (l_needs_cell_orientations sl \<or> kinfo_oriented ?ki)"
    by (auto simp: loopy_inner_def Let_def split: if_splits sum.splits prod.splits)
  from assms(2) sd cell obtain args temp' ac' where
    ac': "append_at (s_assembly_calls sf) ''cell''
        (Filed (FunCall (kernel_name (kinfo_kernel ?ki))
           (EigenTensor temp' (split_indices inner) # coord_sym # call_args ?ki args))) = Inr ac'"
    and sf': "s_assembly_calls sf' = ac'"
      "s_needs_cell_sizes sf' = (s_needs_cell_sizes sf \<or> kinfo_needs_cell_sizes ?ki)"
      "s_oriented sf' = (s_oriented sf \<or> kinfo_oriented ?ki)"
    by (auto simp: flat_split_kernel_def file_call_def Let_def
        split: sum.splits kernel_body.splits)
  have e1: "entry_callee (Filed (CallInstruction
           [SubArrayRef [Variable (Name ''i''), Variable (Name ''i0'')]
              (Subscript (Variable (arg_name ga))
                 [Variable (Name ''i''), Variable (Name ''i0'')])]
           (Call (Variable (Name (kernel_name (kinfo_kernel ?ki)))) rs)
           None True ''inner_call'')) = kernel_name (kinfo_kernel ?ki)" by simp
  have e2: "entry_callee (Filed (FunCall (kernel_name (kinfo_kernel ?ki))
           (EigenTensor temp' (split_indices inner) # coord_sym # call_args ?ki args)))
      = kernel_name (kinfo_kernel ?ki)" by simp
  from callees_of_append_at [OF ac, unfolded e1] callees_of_append_at [OF ac', unfolded e2]
    assms(3)
  have "callees_of ac = callees_of ac'" by (simp add: loops_agree_def)
  with assms(3) sl' sf' show ?thesis by (simp add: loops_agree_def)
qed

lemma context_agree:
  assumes "loopy_context_kernel self' gld c sl = Inr sl'"
    and "flat_context_kernel ext self c sf = Inr sf'"
    and "loops_agree sl sf"
  shows "loops_agree sl' sf'"
proof -
  from assms(1) obtain temp s1 where
    l: "fold_err (loopy_inner self' gld c temp) (tsfc_kernels c) s1 = Inr sl'"
    and s1: "l_assembly_calls s1 = l_assembly_calls sl"
      "l_needs_cell_sizes s1 = l_needs_cell_sizes sl"
      "l_needs_cell_orientations s1 = l_needs_cell_orientations sl"
    by (auto simp: loopy_context_kernel_def split: sum.splits if_splits option.splits)
  from assms(2) obtain f1 where
    f: "fold_err (flat_split_kernel ext self c) (tsfc_kernels c) f1 = Inr sf'"
    and f1: "s_assembly_calls f1 = s_assembly_calls sf"
      "s_needs_cell_sizes f1 = s_needs_cell_sizes sf" "s_oriented f1 = s_oriented sf"
    by (auto simp: flat_context_kernel_def split: sum.splits if_splits option.splits)
  from assms(3) s1 f1 have "loops_agree s1 f1" by (simp add: loops_agree_def)
  from fold_err_simulation [OF l f, of loops_agree, OF this] inner_agree
  show ?thesis by blast
qed

lemma loops_agree_init: "loops_agree loopy_init setup_init"
  by (simp add: loops_agree_def loopy_init_def setup_init_def callees_of_def)

lemma loop_agree:
  assumes "loopy_loop self' gld cks loopy_init = Inr sl"
    and "flat_loop ext self cks setup_init = Inr sf"
  shows "loops_agree sl sf"
  using fold_err_simulation [OF assms [unfolded loopy_loop_def flat_loop_def],
      of loops_agree, OF loops_agree_init] context_agree by blast

text \<open>
  Claim C1, amended. When the form compiler resolves the same context kernels for both
  lowering targets and both builders are constructed from the same expression graph, they
  allocate temporaries for the same terminals in the same order, every iteration-domain
  bucket calls the same kernels in the same order, and the flags for cell sizes and cell
  orientations agree.
\<close>

theorem builders_agree_when_both_succeed:
  assumes "\<forall>t prefix. compile_terminal_form ext t prefix p False
             = compile_terminal_form ext t prefix p True"
    and "LocalKernelBuilder_new ext e p = Inr b"
    and "LocalLoopyKernelBuilder_new ext e p = Inr b'"
  shows "builders_agree b b' \<and> map fst (temps b) = map fst (temps b')
    \<and> same_outcome (LocalKernelBuilder_new ext e p) (LocalLoopyKernelBuilder_new ext e p)"
proof -
  let ?self = "LocalKernelBuilder_base e p"
  from assms(3) obtain st where
    st: "fold_err collect_tensor_loopy (traverse_dags [e]) (collect_loopy_init e) = Inr st"
    and setup': "LocalLoopyKernelBuilder_setup ext (LocalLoopyKernelBuilder_base e p st)
        (c_gem_loopy_dict st) = Inr b'"
    by (auto simp: LocalLoopyKernelBuilder_new_def split: if_splits sum.splits)
  let ?self' = "LocalLoopyKernelBuilder_base e p st"
  have keys: "map fst (temps ?self') = map fst (temps ?self)"
    using collect_loopy_keys [OF st, of "collect_init e"]
    by (simp add: LocalLoopyKernelBuilder_base_def LocalKernelBuilder_base_def Let_def
        collect_loopy_init_def collect_init_def)
  have compile: "compile_all ext p False xs = compile_all ext p True xs" for xs
  proof (induction xs)
    case Nil
    show ?case by simp
  next
    case (Cons x xs)
    obtain i t where x: "x = (i, t)" by (cases x)
    from assms(1) have "compile_terminal_form ext t (''subkernel'' @ string_of_nat i @ ''_'') p False
        = compile_terminal_form ext t (''subkernel'' @ string_of_nat i @ ''_'') p True"
      by blast
    with Cons.IH show ?case unfolding x compile_all.simps by (simp only:)
  qed
  have tp: "tsfc_parameters ?self' = p" "tsfc_parameters ?self = p"
    by (simp_all add: LocalLoopyKernelBuilder_base_def LocalKernelBuilder_base_def Let_def)
  have cks: "context_kernels ext False ?self' = context_kernels ext True ?self"
    unfolding context_kernels_def by (simp only: keys tp compile)
  from new_is_setup [OF assms(2)] obtain cs sf where
    cs: "context_kernels ext True ?self = Inr cs"
    and sf: "flat_loop ext ?self cs setup_init = Inr sf"
    and b: "b = flat_finish ext ?self sf"
    by (auto simp: LocalKernelBuilder_setup_def split: sum.splits)
  from setup' cks cs obtain sl where
    sl: "loopy_loop ?self' (c_gem_loopy_dict st) cs loopy_init = Inr sl"
    and fin: "loopy_finish ext ?self' (c_gem_loopy_dict st) sl = Inr b'"
    by (auto simp: LocalLoopyKernelBuilder_setup_def split: sum.splits)
  from fin have b': "assembly_calls b' = l_assembly_calls sl"
    "needs_cell_sizes b' = l_needs_cell_sizes sl"
    "needs_cell_orientations b' = l_needs_cell_orientations sl"
    "temps b' = temps ?self'"
    by (auto simp: loopy_finish_def split: option.splits prod.splits)
  have agree: "loops_agree sl sf" by (rule loop_agree [OF sl sf])
  have fk: "flat_keys sf" by (rule flat_loop_keys [OF sf flat_keys_init])
  have buckets: "bucket_callees (assembly_calls b) it = bucket_callees (assembly_calls b') it"
    if "it \<in> set supported_integral_types" for it
  proof -
    from that supported_disjoint fk have "it \<notin> fst ` set (s_subdomain_calls sf)"
      by (auto simp: flat_keys_def simp flip: set_map)
    then have "map_of (assembly_calls b) it = map_of (s_assembly_calls sf) it"
      by (simp add: b flat_finish_def map_of_update_dict_other)
    then have "bucket_callees (assembly_calls b) it = map_of (callees_of (s_assembly_calls sf)) it"
      by (simp add: map_of_callees_of bucket_callees_def)
    also have "\<dots> = map_of (callees_of (l_assembly_calls sl)) it"
      using agree by (simp add: loops_agree_def)
    also have "\<dots> = bucket_callees (assembly_calls b') it"
      by (simp add: map_of_callees_of b')
    finally show ?thesis .
  qed
  have ag: "builders_agree b b'"
    using buckets agree
    by (simp add: builders_agree_def list_all_iff b' b flat_finish_def loops_agree_def)
  moreover have "map fst (temps b) = map fst (temps b')"
    by (simp add: b b' flat_finish_def keys)
  ultimately show ?thesis by (simp add: same_outcome_def assms(2,3))
qed



subsection \<open>The examples, evaluated\<close>

lemmas example_defs = example_ext_def example_compile_def example_context_def
  example_kernel_def example_A_def example_M_def example_mesh_def P1_def example_f_def
  example_v_def example_w_def example_Av_def example_Aw_def example_sum_def

lemmas flat_defs = LocalKernelBuilder_new_def LocalKernelBuilder_base_def
  LocalKernelBuilder_setup_def context_kernels_def traverse_dags_def collect_def
  collect_init_def collect_tensor_def setdefault_def counter_update_def
  flat_loop_def flat_context_kernel_def flat_split_kernel_def file_call_def call_args_def
  getitem_def append_at_def setup_init_def supported_integral_types_def
  supported_subdomain_types_def flat_finish_def update_dict_def
  string_of_nat.simps digit_char_def pack_coefficient_def shapes_of_def

lemmas loopy_defs = LocalLoopyKernelBuilder_new_def LocalLoopyKernelBuilder_base_def
  LocalLoopyKernelBuilder_setup_def context_kernels_def traverse_dags_def
  collect_loopy_init_def collect_tensor_loopy_def setdefault_def counter_update_def
  loopy_loop_def loopy_context_kernel_def loopy_inner_def read_arguments_def
  create_index_def index_extent_def getitem_def append_at_def loopy_init_def
  supported_integral_types_def supported_subdomain_types_def loopy_finish_def
  string_of_nat.simps digit_char_def split_def SCALAR_TYPE_def

lemma example_sum_builds:
  "\<exists>b. LocalKernelBuilder_new (example_ext ''cell'') example_sum None = Inr b"
  by (simp add: flat_defs example_defs)

lemma example_sum_dag:
  "traverse_dags [example_sum] =
     [example_sum, example_Av, example_A, example_v, example_Aw, example_w]"
  by (simp add: traverse_dags_def example_defs)

lemma example_A_flat:
  "\<exists>b. LocalKernelBuilder_new (example_ext ''cell'') example_A None = Inr b"
  by (simp add: flat_defs example_defs)

lemma example_A_loopy:
  "\<exists>b. LocalLoopyKernelBuilder_new (example_ext ''cell'') example_A None = Inr b"
  by (simp add: loopy_defs example_defs)

text \<open>
  Claim C1 as stated does not hold: for a terminal with an exterior-facet integral the
  flat builder is constructed, and the structured-loop builder raises
  \<^verbatim>\<open>ValueError("Unhandled integral type exterior_facet")\<close>.
\<close>

theorem builders_diverge:
  "\<not> same_outcome
       (LocalKernelBuilder_new (example_ext ''exterior_facet'') example_A None)
       (LocalLoopyKernelBuilder_new (example_ext ''exterior_facet'') example_A None)
   \<and> \<not> isl (LocalKernelBuilder_new (example_ext ''exterior_facet'') example_A None)
   \<and> LocalLoopyKernelBuilder_new (example_ext ''exterior_facet'') example_A None
       = Inl (ValueError ''Unhandled integral type exterior_facet'')"
proof -
  have l: "LocalLoopyKernelBuilder_new (example_ext ''exterior_facet'') example_A None
       = Inl (ValueError ''Unhandled integral type exterior_facet'')"
    by (simp add: loopy_defs example_defs)
  have "\<exists>b. LocalKernelBuilder_new (example_ext ''exterior_facet'') example_A None = Inr b"
    by (simp add: flat_defs example_defs)
  then obtain b where f: "LocalKernelBuilder_new (example_ext ''exterior_facet'') example_A None = Inr b"
    by blast
  show ?thesis by (simp add: l f same_outcome_def)
qed

theorem builders_agree_when_both_succeed_witness:
  "\<exists>b b'. LocalKernelBuilder_new (example_ext ''cell'') example_A None = Inr b
     \<and> LocalLoopyKernelBuilder_new (example_ext ''cell'') example_A None = Inr b'
     \<and> builders_agree b b'
     \<and> bucket_callees (assembly_calls b') ''cell'' = Some [''subkernel0_cell_integral'']"
proof -
  from example_A_flat obtain b where
    b: "LocalKernelBuilder_new (example_ext ''cell'') example_A None = Inr b" by blast
  from example_A_loopy obtain b' where
    b': "LocalLoopyKernelBuilder_new (example_ext ''cell'') example_A None = Inr b'" by blast
  have c: "\<forall>t prefix. compile_terminal_form (example_ext ''cell'') t prefix None False
             = compile_terminal_form (example_ext ''cell'') t prefix None True"
    by (simp add: example_ext_def example_compile_def)
  have "map_sum id (\<lambda>b. bucket_callees (assembly_calls b) ''cell'')
      (LocalLoopyKernelBuilder_new (example_ext ''cell'') example_A None)
      = Inr (Some [''subkernel0_cell_integral''])"
    by (simp add: loopy_defs example_defs bucket_callees_def)
  with b' have n: "bucket_callees (assembly_calls b') ''cell'' = Some [''subkernel0_cell_integral'']"
    by simp
  from builders_agree_when_both_succeed [OF c b b'] b b' n show ?thesis by blast
qed


lemma new_dag:
  assumes "LocalKernelBuilder_new ext e p = Inr b"
  shows "expression_dag b = traverse_dags [e]"
  using setup_keeps_base [OF new_is_setup [OF assms]]
  by (simp add: LocalKernelBuilder_base_def Let_def)

theorem temporaries_dedup_witness:
  "\<exists>b. LocalKernelBuilder_new (example_ext ''cell'') example_sum None = Inr b
     \<and> length (temps b) = card {t \<in> reachable example_sum. is_Tensor t}
     \<and> map fst (temps b) = [example_A] \<and> distinct (map snd (temps b))"
proof -
  from example_sum_builds obtain b where
    b: "LocalKernelBuilder_new (example_ext ''cell'') example_sum None = Inr b" by blast
  have "filter is_Tensor (traverse_dags [example_sum]) = [example_A]"
    unfolding example_sum_dag by (simp add: is_Tensor_def example_defs)
  with temporaries_dedup [OF b] new_dag [OF b] b show ?thesis by auto
qed


theorem packing_offsets_witness:
  "\<exists>b rs. LocalKernelBuilder_new (example_ext ''cell'') example_sum None = Inr b
     \<and> mset rs = mset (records_of example_f (coefficient_vecs b))
     \<and> length rs = 2
     \<and> offset_index (snd (rs ! 0)) = 0
     \<and> offset_index (snd (rs ! 0)) < offset_index (snd (rs ! 1))
     \<and> offset_index (snd (rs ! 1)) + fst (rs ! 1) = 3"
proof -
  from example_sum_builds obtain b where
    b: "LocalKernelBuilder_new (example_ext ''cell'') example_sum None = Inr b" by blast
  have v: "example_v \<in> set (expression_dag b)"
    by (simp add: new_dag [OF b] example_sum_dag)
  have c: "cls example_v = AssembledVector example_f" by (simp add: example_v_def)
  have shapes: "shapes_of example_f = [1, 2]" by (simp add: shapes_of_def example_f_def)
  from packing_offsets [OF b v c] obtain rs where
    m: "mset rs = mset (records_of example_f (coefficient_vecs b))"
    and len: "length rs = length (shapes_of example_f)"
    and ends: "rs \<noteq> [] \<longrightarrow> offset_index (snd (hd rs)) = 0
          \<and> offset_index (snd (last rs)) + fst (last rs) = sum_list (shapes_of example_f)"
    and incr: "(\<forall>s \<in> set (shapes_of example_f). 0 < s) \<longrightarrow>
         (\<forall>i j. i < j \<and> j < length rs \<longrightarrow>
            offset_index (snd (rs ! i)) < offset_index (snd (rs ! j)))"
    by blast
  from len shapes have l2: "length rs = 2" by simp
  then have ne: "rs \<noteq> []" by auto
  from l2 ne have h: "hd rs = rs ! 0" and la: "last rs = rs ! 1"
    by (simp_all add: hd_conv_nth last_conv_nth)
  from ends ne h la shapes have e: "offset_index (snd (rs ! 0)) = 0"
    "offset_index (snd (rs ! 1)) + fst (rs ! 1) = 3" by simp_all
  from incr shapes l2 have "offset_index (snd (rs ! 0)) < offset_index (snd (rs ! 1))"
    by simp
  with b m l2 e show ?thesis by blast
qed

theorem bucket_map_complete_witness:
  "\<exists>b. LocalKernelBuilder_setup (example_ext ''exterior_facet'')
          (LocalKernelBuilder_base example_A None) = Inr b
     \<and> map fst (assembly_calls b) = supported_integral_types @ supported_subdomain_types
     \<and> map_of (assembly_calls b) ''cell'' = Some []"
proof -
  have "\<exists>b. LocalKernelBuilder_setup (example_ext ''exterior_facet'')
          (LocalKernelBuilder_base example_A None) = Inr b
          \<and> map_of (assembly_calls b) ''cell'' = Some []"
    by (simp add: flat_defs example_defs)
  then obtain b where b: "LocalKernelBuilder_setup (example_ext ''exterior_facet'')
          (LocalKernelBuilder_base example_A None) = Inr b"
    and c: "map_of (assembly_calls b) ''cell'' = Some []" by blast
  from bucket_map_complete [OF b] b c show ?thesis by blast
qed

lemma example_loopy_collect:
  "fold_err collect_tensor_loopy (traverse_dags [TensorBase (Tensor k) s m example_mesh [] []])
       (collect_loopy_init (TensorBase (Tensor k) s m example_mesh [] []))
     = Inr \<lparr>c_temps = [(TensorBase (Tensor k) s m example_mesh [] [], Indexed ''T0'' s [3, 3])],
            c_coeff_vecs = [], c_seen_coeff = {},
            c_counter = [(TensorBase (Tensor k) s m example_mesh [] [], 1)],
            c_gem_loopy_dict = [(Indexed ''T0'' s [3, 3], GlobalArg (Name ''T0'') s ''double'')],
            c_shape = None\<rparr>"
  by (simp add: loopy_defs)

theorem unsupported_kind_raises_witness:
  "LocalKernelBuilder_new (example_ext ''vertex'') example_A None
     = Inl (ValueError ''Integral type 'vertex' not recognized'')
   \<and> LocalLoopyKernelBuilder_new (example_ext ''vertex'') example_A None
     = Inl (ValueError ''Integral type 'vertex' not recognized'')"
proof -
  let ?ext = "example_ext ''vertex''"
  let ?c = "example_context ''vertex'' example_A ''subkernel0_''"
  let ?self = "LocalKernelBuilder_base example_A None"
  have kind: "original_integral_type ?c \<notin> set supported_integral_types"
    by (simp add: example_context_def supported_integral_types_def)
  have msg: "not_recognized (original_integral_type ?c)
      = ValueError ''Integral type 'vertex' not recognized''"
    by (simp add: not_recognized_def example_context_def)
  have cks: "context_kernels ?ext True ?self = Inr ([] @ ?c # [])"
    by (simp add: flat_defs example_defs)
  have pre: "flat_loop ?ext ?self [] setup_init = Inr setup_init" by (simp add: flat_loop_def)
  from unsupported_kind_raises [OF kind, of ?ext ?self "[]" "[]" setup_init] cks pre
  have "LocalKernelBuilder_setup ?ext ?self = Inl (not_recognized (original_integral_type ?c))"
    by blast
  then have "LocalKernelBuilder_setup ?ext ?self
      = Inl (ValueError ''Integral type 'vertex' not recognized'')" by (simp only: msg)
  moreover have layers: "\<not> variable_layers (ufl_domain example_A)"
    by (simp add: example_A_def example_mesh_def)
  ultimately have flat: "LocalKernelBuilder_new ?ext example_A None
      = Inl (ValueError ''Integral type 'vertex' not recognized'')"
    by (simp add: LocalKernelBuilder_new_def)
  obtain st where st: "fold_err collect_tensor_loopy (traverse_dags [example_A])
      (collect_loopy_init example_A) = Inr st"
    and temps: "c_temps st = [(example_A, Indexed ''T0'' [3, 3] [3, 3])]"
    using example_loopy_collect [of 0 "[3, 3]" False] by (simp add: example_A_def)
  let ?self' = "LocalLoopyKernelBuilder_base example_A None st"
  have cks': "context_kernels ?ext False ?self' = Inr ([] @ ?c # [])"
    by (simp add: context_kernels_def LocalLoopyKernelBuilder_base_def temps example_ext_def
        example_compile_def string_of_nat.simps digit_char_def)
  have pre': "loopy_loop ?self' (c_gem_loopy_dict st) [] loopy_init = Inr loopy_init"
    by (simp add: loopy_loop_def)
  have known: "tensor ?c \<in> fst ` set (temps ?self')"
    by (simp add: LocalLoopyKernelBuilder_base_def temps example_context_def)
  from unsupported_kind_raises [OF kind, of ?ext ?self' "[]" "[]" _ "c_gem_loopy_dict st" loopy_init]
    cks' pre' known
  have "LocalLoopyKernelBuilder_setup ?ext ?self' (c_gem_loopy_dict st)
      = Inl (not_recognized (original_integral_type ?c))" by blast
  then have "LocalLoopyKernelBuilder_setup ?ext ?self' (c_gem_loopy_dict st)
      = Inl (ValueError ''Integral type 'vertex' not recognized'')" by (simp only: msg)
  with layers st have "LocalLoopyKernelBuilder_new ?ext example_A None
      = Inl (ValueError ''Integral type 'vertex' not recognized'')"
    by (simp add: LocalLoopyKernelBuilder_new_def)
  with flat show ?thesis by blast
qed

theorem mixed_output_fails_fast_witness:
  "LocalLoopyKernelBuilder_new (example_ext ''cell'') example_M None
     = Inl (ValueError ''For now only non mixed supported'')"
proof -
  let ?ext = "example_ext ''cell''"
  let ?c = "example_context ''cell'' example_M ''subkernel0_''"
  obtain st where st: "fold_err collect_tensor_loopy (traverse_dags [example_M])
      (collect_loopy_init example_M) = Inr st"
    and temps: "c_temps st = [(example_M, Indexed ''T0'' [3, 3] [3, 3])]"
    using example_loopy_collect [of 1 "[3, 3]" True] by (simp add: example_M_def)
  let ?self = "LocalLoopyKernelBuilder_base example_M None st"
  have mixed: "is_mixed (tensor ?c)" by (simp add: example_context_def example_M_def)
  have h: "tsfc_kernels ?c \<noteq> [] \<and> original_integral_type ?c \<in> set supported_integral_types
      \<and> getitem (temps ?self) (tensor ?c) = Inr (Indexed ''T0'' [3, 3] [3, 3])
      \<and> context_kernels ?ext False ?self = Inr ([] @ ?c # [])
      \<and> loopy_loop ?self (c_gem_loopy_dict st) [] loopy_init = Inr loopy_init
      \<and> (l_coords loopy_init = None
          \<or> l_coords loopy_init = Some (coordinates (ufl_domain (tensor ?c))))"
    by (simp add: context_kernels_def LocalLoopyKernelBuilder_base_def temps example_ext_def
        example_compile_def example_context_def supported_integral_types_def getitem_def
        loopy_loop_def loopy_init_def string_of_nat.simps digit_char_def)
  from mixed_output_fails_fast [OF mixed, of ?self "c_gem_loopy_dict st" _ _ _ ?ext "[]" "[]" loopy_init]
    h
  have "LocalLoopyKernelBuilder_setup ?ext ?self (c_gem_loopy_dict st)
      = Inl (ValueError ''For now only non mixed supported'')" by blast
  moreover have "\<not> variable_layers (ufl_domain example_M)"
    by (simp add: example_M_def example_mesh_def)
  ultimately show ?thesis using st by (simp add: LocalLoopyKernelBuilder_new_def)
qed

end
